theory Spec2Isabelle
  imports Complex_Main "HOL-Library.Sublist" "HOL-Library.Multiset" "HOL-Library.AList"
begin

section \<open>Values, strings and exceptions\<close>

text \<open>
  The program is \<^verbatim>\<open>server.py\<close>, a skills server that keeps an index of
  \<^verbatim>\<open>_meta.json\<close> records and a full-text index of markdown files in module globals.
  A Python \<^verbatim>\<open>str\<close> is a \<open>string\<close>, one \<open>char\<close> per code point; only code points
  below 256 are representable. A value produced by \<^verbatim>\<open>json.loads\<close>, or handed in by a
  caller, is a \<open>json\<close>; a \<^verbatim>\<open>dict\<close> is the list of its items in insertion order (keys
  distinct), read with \<open>map_of\<close>.
\<close>

datatype json =
    JNull
  | JBool bool
  | JNum rat
  | JStr string
  | JArr "json list"
  | JObj "(string \<times> json) list"

text \<open>
  What stops a call: the exceptions the code can meet, and \<open>Deadlock\<close>, the thread
  blocking for ever on a \<^verbatim>\<open>threading.Lock\<close> it already holds (not an exception: no
  handler sees it and no \<^verbatim>\<open>with\<close> block is left).
\<close>

datatype abort = TypeError | KeyError | AttributeError | OSError | UnicodeDecodeError | Deadlock

definition bindE :: "abort + 'a \<Rightarrow> ('a \<Rightarrow> abort + 'b) \<Rightarrow> abort + 'b" where
  "bindE m f = (case m of Inl e \<Rightarrow> Inl e | Inr x \<Rightarrow> f x)"

subsection \<open>Strings\<close>

definition lower_char :: "char \<Rightarrow> char" where
  "lower_char c =
     (let n = (of_char c :: nat)
      in if (65 \<le> n \<and> n \<le> 90) \<or> (192 \<le> n \<and> n \<le> 222 \<and> n \<noteq> 215)
         then char_of (n + 32) else c)"

definition lower :: "string \<Rightarrow> string" where
  "lower s = map lower_char s"

definition is_space :: "char \<Rightarrow> bool" where
  "is_space c =
     (let n = (of_char c :: nat)
      in (9 \<le> n \<and> n \<le> 13) \<or> (28 \<le> n \<and> n \<le> 32) \<or> n = 133 \<or> n = 160)"

definition strip :: "string \<Rightarrow> string" where
  "strip s = rev (dropWhile is_space (rev (dropWhile is_space s)))"

text \<open>\<^verbatim>\<open>q in s\<close> on two strings.\<close>

fun str_contains :: "string \<Rightarrow> string \<Rightarrow> bool" where
  "str_contains q [] = (q = [])"
| "str_contains q (c # cs) = (prefix q (c # cs) \<or> str_contains q cs)"

text \<open>\<^verbatim>\<open>s.find(q)\<close>, with \<open>None\<close> for -1.\<close>

fun str_find :: "string \<Rightarrow> string \<Rightarrow> nat option" where
  "str_find q [] = (if q = [] then Some 0 else None)"
| "str_find q (c # cs) =
     (if prefix q (c # cs) then Some 0 else map_option Suc (str_find q cs))"

text \<open>\<^verbatim>\<open>s.count(w)\<close> for a non-empty \<open>w\<close>: occurrences that do not overlap.\<close>

function str_count :: "string \<Rightarrow> string \<Rightarrow> nat" where
  "str_count w s =
     (if w = [] \<or> s = [] then 0
      else if prefix w s then Suc (str_count w (drop (length w) s))
      else str_count w (tl s))"
  by pat_completeness auto
termination
  by (relation "measure (\<lambda>(w, s). length s)") auto

text \<open>\<^verbatim>\<open>s.replace(old, '')\<close> for a non-empty \<open>old\<close>.\<close>

function str_remove :: "string \<Rightarrow> string \<Rightarrow> string" where
  "str_remove old s =
     (if old = [] \<or> s = [] then s
      else if prefix old s then str_remove old (drop (length old) s)
      else hd s # str_remove old (tl s))"
  by pat_completeness auto
termination
  by (relation "measure (\<lambda>(old, s). length s)") auto

text \<open>\<^verbatim>\<open>s.split()\<close>: the maximal runs of characters that are not white space.\<close>

fun split_acc :: "string \<Rightarrow> string \<Rightarrow> string list" where
  "split_acc cur [] = (if cur = [] then [] else [cur])"
| "split_acc cur (c # cs) =
     (if is_space c then (if cur = [] then split_acc [] cs else cur # split_acc [] cs)
      else split_acc (cur @ [c]) cs)"

definition split :: "string \<Rightarrow> string list" where
  "split s = split_acc [] s"

definition digit_char :: "nat \<Rightarrow> char" where
  "digit_char d = char_of (48 + d)"

fun str_nat :: "nat \<Rightarrow> string" where
  "str_nat n = (if n < 10 then [digit_char n] else str_nat (n div 10) @ [digit_char (n mod 10)])"

declare str_nat.simps [simp del]

subsection \<open>Python operators on values\<close>

text \<open>\<^verbatim>\<open>key in x\<close> for a string \<open>key\<close>: dict keys, list elements, substring; no other
  value can be searched.\<close>

fun py_in :: "string \<Rightarrow> json \<Rightarrow> abort + bool" where
  "py_in k (JObj kvs) = Inr (map_of kvs k \<noteq> None)"
| "py_in k (JArr xs) = Inr (JStr k \<in> set xs)"
| "py_in k (JStr s) = Inr (str_contains k s)"
| "py_in k _ = Inl TypeError"

text \<open>\<^verbatim>\<open>x[key]\<close> for a string \<open>key\<close>.\<close>

fun py_getitem :: "json \<Rightarrow> string \<Rightarrow> abort + json" where
  "py_getitem (JObj kvs) k = (case map_of kvs k of None \<Rightarrow> Inl KeyError | Some v \<Rightarrow> Inr v)"
| "py_getitem _ k = Inl TypeError"

text \<open>\<^verbatim>\<open>x.get(key, default)\<close>: only a dict has the method.\<close>

fun py_get :: "json \<Rightarrow> string \<Rightarrow> json \<Rightarrow> abort + json" where
  "py_get (JObj kvs) k d = (case map_of kvs k of None \<Rightarrow> Inr d | Some v \<Rightarrow> Inr v)"
| "py_get _ k d = Inl AttributeError"

text \<open>\<^verbatim>\<open>x.lower()\<close>: only a string has the method.\<close>

fun py_lower :: "json \<Rightarrow> abort + string" where
  "py_lower (JStr s) = Inr (lower s)"
| "py_lower _ = Inl AttributeError"

text \<open>The elements a \<^verbatim>\<open>for\<close> loop or a generator sees.\<close>

fun py_iter :: "json \<Rightarrow> abort + json list" where
  "py_iter (JArr xs) = Inr xs"
| "py_iter (JStr s) = Inr (map (\<lambda>c. JStr [c]) s)"
| "py_iter (JObj kvs) = Inr (map (\<lambda>kv. JStr (fst kv)) kvs)"
| "py_iter _ = Inl TypeError"

text \<open>Truth value of a value in \<^verbatim>\<open>if x\<close> and \<^verbatim>\<open>not x\<close>.\<close>

fun truthy :: "json \<Rightarrow> bool" where
  "truthy JNull = False"
| "truthy (JBool b) = b"
| "truthy (JNum n) = (n \<noteq> 0)"
| "truthy (JStr s) = (s \<noteq> [])"
| "truthy (JArr xs) = (xs \<noteq> [])"
| "truthy (JObj kvs) = (kvs \<noteq> [])"

fun is_str :: "json \<Rightarrow> bool" where
  "is_str (JStr s) = True"
| "is_str _ = False"

text \<open>\<^verbatim>\<open>any(q in t.lower() for t in ts)\<close>: stops at the first hit; an element that is
  not a string raises when it is reached.\<close>

fun any_contains :: "string \<Rightarrow> json list \<Rightarrow> abort + bool" where
  "any_contains q [] = Inr False"
| "any_contains q (t # ts) =
     (case py_lower t of
        Inl e \<Rightarrow> Inl e
      | Inr s \<Rightarrow> if str_contains q s then Inr True else any_contains q ts)"


text \<open>\<^verbatim>\<open>a == b\<close> on values: \<^verbatim>\<open>True == 1\<close>, lists compare element by element, dicts
  key by key whatever the order of insertion.\<close>

fun py_eq :: "json \<Rightarrow> json \<Rightarrow> bool"
  and py_eq_list :: "json list \<Rightarrow> json list \<Rightarrow> bool"
  and py_eq_items :: "(string \<times> json) list \<Rightarrow> (string \<times> json) list \<Rightarrow> bool" where
  "py_eq JNull b = (b = JNull)"
| "py_eq (JBool x) b =
     (case b of JBool y \<Rightarrow> x = y | JNum n \<Rightarrow> n = (if x then 1 else 0) | _ \<Rightarrow> False)"
| "py_eq (JNum m) b =
     (case b of JBool y \<Rightarrow> m = (if y then 1 else 0) | JNum n \<Rightarrow> m = n | _ \<Rightarrow> False)"
| "py_eq (JStr s) b = (b = JStr s)"
| "py_eq (JArr xs) b = (case b of JArr ys \<Rightarrow> py_eq_list xs ys | _ \<Rightarrow> False)"
| "py_eq (JObj kvs) b =
     (case b of JObj kws \<Rightarrow> length kvs = length kws \<and> py_eq_items kvs kws | _ \<Rightarrow> False)"
| "py_eq_list [] ys = (ys = [])"
| "py_eq_list (x # xs) ys =
     (case ys of [] \<Rightarrow> False | y # ys' \<Rightarrow> py_eq x y \<and> py_eq_list xs ys')"
| "py_eq_items [] kws = True"
| "py_eq_items (kv # kvs) kws =
     (case map_of kws (fst kv) of
        None \<Rightarrow> False
      | Some v' \<Rightarrow> py_eq (snd kv) v' \<and> py_eq_items kvs kws)"

section \<open>The environment and the module state\<close>

text \<open>
  Everything a call reads from outside the module is a field of \<open>world\<close>: the directory
  \<^verbatim>\<open>SKILLS_DIR\<close> as \<^verbatim>\<open>pathlib\<close> reports it, the clock, and \<^verbatim>\<open>str()\<close> of a value inside
  an f-string. A path below \<^verbatim>\<open>SKILLS_DIR\<close> is the list of its components.
\<close>

type_synonym mtime = rat

text \<open>\<^verbatim>\<open>_meta.json\<close> of a directory: absent, unreadable (with the exception and its
  message), not JSON (with the parser's message), or the parsed value.\<close>

datatype meta_file = NoMeta | ReadFails abort string | BadJson string | Parsed json

text \<open>An entry of \<^verbatim>\<open>skill_dir.rglob("*")\<close>: not a file, or a file with the result of
  \<^verbatim>\<open>stat()\<close> (\<open>None\<close> when it raises \<^verbatim>\<open>OSError\<close>).\<close>

datatype tree_entry = NotAFile | AFile "mtime option"

text \<open>A file matched by \<^verbatim>\<open>glob("*.md")\<close>: its name, its stem and what \<^verbatim>\<open>read_text\<close>
  gives (\<open>Inl\<close> the message of an \<^verbatim>\<open>OSError\<close>).\<close>

record md_file =
  md_name :: string
  md_stem :: string
  md_read :: "string + string"

record dirent =
  d_name :: string
  d_is_dir :: bool
  d_meta :: meta_file
  d_skill_md :: "(string + string) option"
  d_references :: "md_file list"
  d_scripts :: "md_file list"
  d_tree :: "(string \<times> tree_entry) list"

record world =
  str_of :: "json \<Rightarrow> string"
  now :: string
  root_exists :: bool
  listing :: "dirent list"
  path_inside :: "string list \<Rightarrow> bool"
  path_exists :: "string list \<Rightarrow> bool"
  read_text :: "string list \<Rightarrow> string + string"

datatype lock = INDEX_LOCK | CONTENT_INDEX_LOCK | FILE_MTIMES_LOCK | STATS_LOCK

record skill_index =
  skills :: "json list"
  validation_errors :: "string list"

record entry =
  e_domain :: string
  e_sub_skill :: "string option"
  e_file :: string
  e_content :: string

text \<open>
  Objects that a call creates and hands out live in \<open>heap\<close>. The three collections of
  \<^verbatim>\<open>_USAGE_STATS\<close> are created once and never rebound; they are the fields
  \<open>tool_calls\<close>, \<open>skill_loads\<close> and \<open>searches\<close>, updated in place. A search entry
  is the pair of its query and its timestamp.
\<close>

datatype pyobj =
    Counts "(json \<times> int) list"
  | Entries "(json \<times> string) list"

datatype global = G_tool_calls | G_skill_loads | G_searches

datatype ref = Global global | Addr nat

text \<open>\<open>held\<close> is the list of locks the running thread holds, \<open>lock_log\<close> the value of
  \<open>held\<close> after each acquisition, oldest first.\<close>

record server =
  INDEX :: "skill_index option"
  CONTENT_INDEX :: "(string \<times> entry) list option"
  FILE_MTIMES :: "(string \<times> mtime) list"
  tool_calls :: "(json \<times> int) list"
  skill_loads :: "(json \<times> int) list"
  searches :: "(json \<times> string) list"
  start_time :: string
  heap :: "nat \<Rightarrow> pyobj option"
  next_addr :: nat
  held :: "lock list"
  lock_log :: "lock list list"

definition bindS ::
  "(server \<Rightarrow> (abort + 'a) \<times> server) \<Rightarrow> ('a \<Rightarrow> server \<Rightarrow> (abort + 'b) \<times> server)
   \<Rightarrow> server \<Rightarrow> (abort + 'b) \<times> server" where
  "bindS m f s = (case m s of (Inl e, s') \<Rightarrow> (Inl e, s') | (Inr x, s') \<Rightarrow> f x s')"

definition liftE :: "abort + 'a \<Rightarrow> server \<Rightarrow> (abort + 'a) \<times> server" where
  "liftE r s = (r, s)"

text \<open>\<^verbatim>\<open>with lock: body\<close>. The lock is not reentrant; it is released when the body
  returns or raises.\<close>

definition with_lock ::
  "lock \<Rightarrow> (server \<Rightarrow> (abort + 'a) \<times> server) \<Rightarrow> server \<Rightarrow> (abort + 'a) \<times> server" where
  "with_lock l body s =
     (if l \<in> set (held s) then (Inl Deadlock, s)
      else (case body (s\<lparr>held := l # held s, lock_log := lock_log s @ [l # held s]\<rparr>) of
              (Inl Deadlock, s') \<Rightarrow> (Inl Deadlock, s')
            | (r, s') \<Rightarrow> (r, s'\<lparr>held := remove1 l (held s')\<rparr>)))"

section \<open>validate_meta\<close>

definition META_required :: "string list" where
  "META_required = [''name'', ''description'']"

definition SUB_SKILL_required :: "string list" where
  "SUB_SKILL_required = [''name'', ''file'']"

definition quoted :: "string \<Rightarrow> string" where
  "quoted s = [CHR 0x27] @ s @ [CHR 0x27]"

fun check_required :: "json \<Rightarrow> string \<Rightarrow> string list \<Rightarrow> abort + string list" where
  "check_required meta skill_name [] = Inr []"
| "check_required meta skill_name (field # others) =
     bindE (py_in field meta) (\<lambda>present.
     bindE (check_required meta skill_name others) (\<lambda>rest.
       Inr ((if present then []
             else [skill_name @ '': Missing required field '' @ quoted field]) @ rest)))"

fun check_sub_fields :: "string \<Rightarrow> nat \<Rightarrow> json \<Rightarrow> string list \<Rightarrow> abort + string list" where
  "check_sub_fields skill_name i sub [] = Inr []"
| "check_sub_fields skill_name i sub (field # others) =
     bindE (py_in field sub) (\<lambda>present.
     bindE (check_sub_fields skill_name i sub others) (\<lambda>rest.
       Inr ((if present then []
             else [skill_name @ '': sub_skill['' @ str_nat i @ ''] missing required field ''
                   @ quoted field]) @ rest)))"

fun check_sub_skills :: "string \<Rightarrow> nat \<Rightarrow> json list \<Rightarrow> abort + string list" where
  "check_sub_skills skill_name i [] = Inr []"
| "check_sub_skills skill_name i (sub # subs) =
     bindE (check_sub_fields skill_name i sub SUB_SKILL_required) (\<lambda>errs.
     bindE (check_sub_skills skill_name (Suc i) subs) (\<lambda>rest. Inr (errs @ rest)))"

definition validate_meta :: "(json \<Rightarrow> string) \<Rightarrow> json \<Rightarrow> string \<Rightarrow> abort + string list" where
  "validate_meta str meta skill_name =
     bindE (check_required meta skill_name META_required) (\<lambda>e1.
     bindE (py_in ''name'' meta) (\<lambda>has_name.
     bindE (if has_name
            then bindE (py_getitem meta ''name'') (\<lambda>n.
                   Inr (if n \<noteq> JStr skill_name
                        then [skill_name @ '': '' @ quoted ''name'' @ '' field ('' @ str n
                              @ '') doesn'' @ [CHR 0x27] @ ''t match directory name'']
                        else []))
            else Inr []) (\<lambda>e2.
     bindE (py_in ''tags'' meta) (\<lambda>has_tags.
     bindE (if has_tags
            then bindE (py_getitem meta ''tags'') (\<lambda>tags.
                   Inr (case tags of
                          JArr ts \<Rightarrow>
                            (if list_all is_str ts then []
                             else [skill_name @ '': All tags must be strings''])
                        | _ \<Rightarrow> [skill_name @ '': '' @ quoted ''tags'' @ '' must be a list'']))
            else Inr []) (\<lambda>e3.
     bindE (py_in ''sub_skills'' meta) (\<lambda>has_subs.
     bindE (if has_subs
            then bindE (py_getitem meta ''sub_skills'') (\<lambda>subs.
                   case subs of
                     JArr ss \<Rightarrow> check_sub_skills skill_name 0 ss
                   | _ \<Rightarrow> Inr [skill_name @ '': '' @ quoted ''sub_skills'' @ '' must be a list''])
            else Inr []) (\<lambda>e4.
       Inr (e1 @ e2 @ e3 @ e4))))))))"

section \<open>build_content_index and load_index\<close>

definition index_file ::
  "string \<Rightarrow> string option \<Rightarrow> string \<Rightarrow> string + string
   \<Rightarrow> (string \<times> entry) list \<Rightarrow> (string \<times> entry) list" where
  "index_file skill_name sub file rd index =
     (case rd of
        Inl e \<Rightarrow> index
      | Inr text \<Rightarrow>
          AList.update (skill_name @ '':'' @ file)
            \<lparr>e_domain = skill_name, e_sub_skill = sub, e_file = file, e_content = lower text\<rparr>
            index)"

definition index_dir :: "dirent \<Rightarrow> (string \<times> entry) list \<Rightarrow> (string \<times> entry) list" where
  "index_dir d index =
     (let i1 = (case d_skill_md d of
                  None \<Rightarrow> index
                | Some rd \<Rightarrow> index_file (d_name d) None ''SKILL.md'' rd index);
          i2 = fold (\<lambda>f. index_file (d_name d) (Some (md_stem f))
                            (''references/'' @ md_name f) (md_read f))
                 (d_references d) i1
      in fold (\<lambda>f. index_file (d_name d)
                      (Some (str_remove ''.ts'' (str_remove ''.js'' (md_stem f))))
                      (''scripts/'' @ md_name f) (md_read f))
           (d_scripts d) i2)"

definition build_content_index :: "world \<Rightarrow> (string \<times> entry) list" where
  "build_content_index w =
     (if \<not> root_exists w then []
      else fold (\<lambda>d index. if d_is_dir d then index_dir d index else index) (listing w) [])"

definition empty_index :: skill_index where
  "empty_index = \<lparr>skills = [], validation_errors = []\<rparr>"

fun load_dirs :: "world \<Rightarrow> dirent list \<Rightarrow> skill_index \<Rightarrow> abort + skill_index" where
  "load_dirs w [] index = Inr index"
| "load_dirs w (d # ds) index =
     (if d_is_dir d then
        (case d_meta d of
           NoMeta \<Rightarrow> load_dirs w ds index
         | Parsed meta \<Rightarrow>
             bindE (validate_meta (str_of w) meta (d_name d)) (\<lambda>errors.
               load_dirs w ds
                 (index\<lparr>validation_errors := validation_errors index @ errors,
                        skills := skills index @ [meta]\<rparr>))
         | BadJson e \<Rightarrow>
             load_dirs w ds
               (index\<lparr>validation_errors := validation_errors index
                         @ [d_name d @ '': Invalid JSON in _meta.json: '' @ e]\<rparr>)
         | ReadFails x e \<Rightarrow>
             load_dirs w ds
               (index\<lparr>validation_errors := validation_errors index
                         @ [d_name d @ '': Failed to read _meta.json: '' @ e]\<rparr>))
      else load_dirs w ds index)"

definition load_index :: "world \<Rightarrow> server \<Rightarrow> (abort + skill_index) \<times> server" where
  "load_index w s =
     (if \<not> root_exists w then (Inr empty_index, s)
      else (case load_dirs w (listing w) empty_index of
              Inl e \<Rightarrow> (Inl e, s)
            | Inr index \<Rightarrow>
                bindS (with_lock CONTENT_INDEX_LOCK
                         (\<lambda>s. (Inr (), s\<lparr>CONTENT_INDEX := Some (build_content_index w)\<rparr>)))
                      (\<lambda>u. liftE (Inr index)) s))"

definition get_index :: "world \<Rightarrow> server \<Rightarrow> (abort + skill_index) \<times> server" where
  "get_index w s =
     with_lock INDEX_LOCK
       (\<lambda>s. case INDEX s of
               None \<Rightarrow> bindS (load_index w) (\<lambda>index s. (Inr index, s\<lparr>INDEX := Some index\<rparr>)) s
             | Some index \<Rightarrow> (Inr index, s)) s"

section \<open>track_usage\<close>

text \<open>\<^verbatim>\<open>if k not in d: d[k] = 0\<close> followed by \<^verbatim>\<open>d[k] += 1\<close>.\<close>

definition bump :: "'k \<Rightarrow> ('k \<times> int) list \<Rightarrow> ('k \<times> int) list" where
  "bump k d =
     (let d0 = (if map_of d k = None then AList.update k 0 d else d)
      in AList.update k ((case map_of d0 k of None \<Rightarrow> 0 | Some n \<Rightarrow> n) + 1) d0)"

text \<open>\<^verbatim>\<open>append\<close> on a \<^verbatim>\<open>deque(maxlen=n)\<close>: the new element goes to the right end, and the
  left end is dropped when the length exceeds \<open>n\<close>.\<close>

definition deque_append :: "nat \<Rightarrow> 'a \<Rightarrow> 'a list \<Rightarrow> 'a list" where
  "deque_append maxlen x xs = (let ys = xs @ [x] in if length ys > maxlen then tl ys else ys)"

definition track_usage ::
  "string \<Rightarrow> (string \<times> json) list option \<Rightarrow> world \<Rightarrow> server \<Rightarrow> (abort + unit) \<times> server" where
  "track_usage tool_name details w s =
     with_lock STATS_LOCK
       (\<lambda>s. let s1 = s\<lparr>tool_calls := bump (JStr tool_name) (tool_calls s)\<rparr>
             in (Inr (),
                 (case details of
                    None \<Rightarrow> s1
                  | Some d \<Rightarrow>
                      if d = [] then s1
                      else (let s2 = (case map_of d ''domain'' of
                                        None \<Rightarrow> s1
                                      | Some domain \<Rightarrow>
                                          s1\<lparr>skill_loads := bump domain (skill_loads s1)\<rparr>)
                            in (case map_of d ''query'' of
                                  None \<Rightarrow> s2
                                | Some q \<Rightarrow>
                                    s2\<lparr>searches :=
                                         deque_append 100 (q, now w) (searches s2)\<rparr>))))) s"

section \<open>check_for_changes\<close>

fun scan_files ::
  "(string \<times> mtime) list \<Rightarrow> (string \<times> tree_entry) list \<Rightarrow> (string \<times> mtime) list \<times> bool
   \<Rightarrow> (string \<times> mtime) list \<times> bool" where
  "scan_files old [] acc = acc"
| "scan_files old ((file, e) # rest) (current_mtimes, changed) =
     (case e of
        NotAFile \<Rightarrow> scan_files old rest (current_mtimes, changed)
      | AFile None \<Rightarrow> scan_files old rest (current_mtimes, changed)
      | AFile (Some m) \<Rightarrow>
          scan_files old rest
            (AList.update file m current_mtimes,
             (case map_of old file of
                Some m' \<Rightarrow> if m' \<noteq> m then True else changed
              | None \<Rightarrow> True)))"

fun scan_dirs ::
  "(string \<times> mtime) list \<Rightarrow> dirent list \<Rightarrow> (string \<times> mtime) list \<times> bool
   \<Rightarrow> (string \<times> mtime) list \<times> bool" where
  "scan_dirs old [] acc = acc"
| "scan_dirs old (d # ds) acc =
     (if d_is_dir d then scan_dirs old ds (scan_files old (d_tree d) acc)
      else scan_dirs old ds acc)"

definition check_for_changes :: "world \<Rightarrow> server \<Rightarrow> (abort + bool) \<times> server" where
  "check_for_changes w s =
     (if \<not> root_exists w then (Inr False, s)
      else with_lock FILE_MTIMES_LOCK
             (\<lambda>s. case scan_dirs (FILE_MTIMES s) (listing w) ([], False) of
                     (current_mtimes, changed) \<Rightarrow>
                       (Inr (if list_ex (\<lambda>old_file. map_of current_mtimes old_file = None)
                                   (map fst (FILE_MTIMES s))
                             then True else changed),
                        s\<lparr>FILE_MTIMES := current_mtimes\<rparr>)) s)"




text \<open>One turn of the loop of \<^verbatim>\<open>file_watcher\<close>, before it sleeps: an exception of the
  turn is logged and dropped.\<close>

definition file_watcher_turn :: "world \<Rightarrow> server \<Rightarrow> (abort + unit) \<times> server" where
  "file_watcher_turn w s =
     (case bindS (check_for_changes w) (\<lambda>changed.
             if changed
             then bindS (load_index w) (\<lambda>new_index.
                    with_lock INDEX_LOCK (\<lambda>s. (Inr (), s\<lparr>INDEX := Some new_index\<rparr>)))
             else liftE (Inr ())) s of
        (Inl Deadlock, s') \<Rightarrow> (Inl Deadlock, s')
      | (r, s') \<Rightarrow> (Inr (), s'))"


section \<open>The core functions behind the tools\<close>

text \<open>\<^verbatim>\<open>re.match(r'^[a-zA-Z0-9\-_]+$', name)\<close>: in Python \<^verbatim>\<open>$\<close> also matches before a
  newline that ends the string.\<close>

definition safe_char :: "char \<Rightarrow> bool" where
  "safe_char c =
     (let n = (of_char c :: nat)
      in (97 \<le> n \<and> n \<le> 122) \<or> (65 \<le> n \<and> n \<le> 90) \<or> (48 \<le> n \<and> n \<le> 57)
         \<or> n = 45 \<or> n = 95)"

fun is_safe_skill_name :: "json \<Rightarrow> bool" where
  "is_safe_skill_name (JStr name) =
     (name \<noteq> [] \<and>
      (let body = (if last name = CHR 0x0A then butlast name else name)
       in body \<noteq> [] \<and> list_all safe_char body))"
| "is_safe_skill_name _ = False"

datatype reply =
    ErrorReply string
  | SkillReply json string "json list" bool
  | SubSkillReply json json string

text \<open>\<^verbatim>\<open>next((s for s in xs if s["name"] == name), default)\<close>, \<open>None\<close> for the default.\<close>

fun find_by_name :: "json list \<Rightarrow> json \<Rightarrow> abort + json option" where
  "find_by_name [] name = Inr None"
| "find_by_name (s # rest) name =
     (case py_getitem s ''name'' of
        Inl e \<Rightarrow> Inl e
      | Inr n \<Rightarrow> if py_eq n name then Inr (Some s) else find_by_name rest name)"

text \<open>\<^verbatim>\<open>[sub["name"] for sub in subs]\<close>.\<close>

fun names_of :: "json list \<Rightarrow> abort + json list" where
  "names_of [] = Inr []"
| "names_of (sub # subs) =
     (case py_getitem sub ''name'' of
        Inl e \<Rightarrow> Inl e
      | Inr n \<Rightarrow> (case names_of subs of Inl e \<Rightarrow> Inl e | Inr ns \<Rightarrow> Inr (n # ns)))"

definition sub_skill_names :: "json \<Rightarrow> abort + json list" where
  "sub_skill_names meta =
     bindE (py_get meta ''sub_skills'' (JArr [])) (\<lambda>subs.
     bindE (py_iter subs) names_of)"

fun list_entries :: "json list \<Rightarrow> abort + (json \<times> json \<times> json list) list" where
  "list_entries [] = Inr []"
| "list_entries (s # rest) =
     (case bindE (py_getitem s ''name'') (\<lambda>n.
           bindE (py_getitem s ''description'') (\<lambda>d.
           bindE (sub_skill_names s) (\<lambda>subs. Inr (n, d, subs)))) of
        Inl e \<Rightarrow> Inl e
      | Inr x \<Rightarrow> (case list_entries rest of Inl e \<Rightarrow> Inl e | Inr xs \<Rightarrow> Inr (x # xs)))"

definition list_skills :: "world \<Rightarrow> server \<Rightarrow> (abort + (json \<times> json \<times> json list) list) \<times> server" where
  "list_skills w =
     bindS (track_usage ''list_skills'' None w) (\<lambda>u.
     bindS (get_index w) (\<lambda>index. liftE (list_entries (skills index))))"

definition get_skill :: "json \<Rightarrow> world \<Rightarrow> server \<Rightarrow> (abort + reply) \<times> server" where
  "get_skill name w =
     (if \<not> is_safe_skill_name name
      then liftE (Inr (ErrorReply (''Invalid skill name: '' @ str_of w name)))
      else bindS (track_usage ''get_skill'' (Some [(''domain'', name)]) w) (\<lambda>u.
             case name of
               JStr n \<Rightarrow>
                 if \<not> path_inside w [n]
                 then liftE (Inr (ErrorReply (''Invalid skill path: '' @ n)))
                 else if \<not> path_exists w [n, ''SKILL.md'']
                 then liftE (Inr (ErrorReply (''Skill '' @ quoted n @ '' not found'')))
                 else (case read_text w [n, ''SKILL.md''] of
                         Inl e \<Rightarrow> liftE (Inr (ErrorReply (''Failed to read skill: '' @ e)))
                       | Inr content \<Rightarrow>
                           bindS (get_index w) (\<lambda>index.
                             liftE (bindE (find_by_name (skills index) name) (\<lambda>found.
                                    bindE (sub_skill_names
                                             (case found of None \<Rightarrow> JObj [] | Some m \<Rightarrow> m))
                                      (\<lambda>subs.
                                    Inr (SkillReply name content subs
                                           (path_exists w [n, ''references''])))))))
             | _ \<Rightarrow> liftE (Inl TypeError)))"

definition get_sub_skill :: "json \<Rightarrow> json \<Rightarrow> world \<Rightarrow> server \<Rightarrow> (abort + reply) \<times> server" where
  "get_sub_skill domain sub_skill w =
     (if \<not> is_safe_skill_name domain
      then liftE (Inr (ErrorReply (''Invalid domain name: '' @ str_of w domain)))
      else bindS (track_usage ''get_sub_skill''
                    (Some [(''domain'', domain), (''sub_skill'', sub_skill)]) w) (\<lambda>u.
           bindS (get_index w) (\<lambda>index.
             liftE
               (bindE (find_by_name (skills index) domain) (\<lambda>meta.
                  case meta of
                    None \<Rightarrow>
                      Inr (ErrorReply (''Domain '' @ quoted (str_of w domain) @ '' not found''))
                  | Some m \<Rightarrow>
                      if \<not> truthy m
                      then Inr (ErrorReply
                                  (''Domain '' @ quoted (str_of w domain) @ '' not found''))
                      else
                        bindE (py_get m ''sub_skills'' (JArr [])) (\<lambda>subs.
                        bindE (py_iter subs) (\<lambda>sub_list.
                        bindE (find_by_name sub_list sub_skill) (\<lambda>sub.
                          case (case sub of None \<Rightarrow> None
                                | Some x \<Rightarrow> if truthy x then Some x else None) of
                            None \<Rightarrow>
                              Inr (ErrorReply
                                     (''Sub-skill '' @ quoted (str_of w sub_skill)
                                      @ '' not found in '' @ quoted (str_of w domain)))
                          | Some x \<Rightarrow>
                              bindE (py_getitem x ''file'') (\<lambda>file.
                                case (domain, file) of
                                  (JStr d, JStr f) \<Rightarrow>
                                    if \<not> path_inside w [d, f]
                                    then Inr (ErrorReply ''Invalid file path'')
                                    else if \<not> path_exists w [d, f]
                                    then Inr (ErrorReply (''File not found: '' @ f))
                                    else (case read_text w [d, f] of
                                            Inl e \<Rightarrow>
                                              Inr (ErrorReply
                                                     (''Failed to read sub-skill: '' @ e))
                                          | Inr content \<Rightarrow>
                                              Inr (SubSkillReply domain sub_skill content))
                                | _ \<Rightarrow> Inl TypeError)))))))))"

fun batch_loop :: "json list \<Rightarrow> world \<Rightarrow> server \<Rightarrow> (abort + reply list) \<times> server" where
  "batch_loop [] w s = (Inr [], s)"
| "batch_loop (req # requests) w s =
     (case py_get req ''domain'' JNull of
        Inl e \<Rightarrow> (Inl e, s)
      | Inr domain \<Rightarrow>
          (case py_get req ''sub_skill'' JNull of
             Inl e \<Rightarrow> (Inl e, s)
           | Inr sub_skill \<Rightarrow>
               (case (if truthy sub_skill then get_sub_skill domain sub_skill w s
                      else get_skill domain w s) of
                  (Inl e, s') \<Rightarrow> (Inl e, s')
                | (Inr r, s') \<Rightarrow>
                    (case batch_loop requests w s' of
                       (Inl e, s'') \<Rightarrow> (Inl e, s'')
                     | (Inr rs, s'') \<Rightarrow> (Inr (r # rs), s'')))))"

definition get_skills_batch :: "json list \<Rightarrow> world \<Rightarrow> server \<Rightarrow> (abort + reply list) \<times> server" where
  "get_skills_batch requests w =
     bindS (track_usage ''get_skills_batch'' None w) (\<lambda>u. batch_loop requests w)"


subsection \<open>Metadata search\<close>

text \<open>The floats of the scores are rationals here: \<open>9/10\<close> for \<^verbatim>\<open>0.9\<close>.\<close>

record result =
  r_domain :: json
  r_sub_skill :: json
  r_score :: rat
  r_match :: "string option"

datatype 'r search_reply = SearchError string | SearchOk string "'r list"

text \<open>The \<^verbatim>\<open>if\<close>/\<^verbatim>\<open>elif\<close> chain on a domain: the score and the match type it leaves.\<close>

definition domain_match :: "string \<Rightarrow> json \<Rightarrow> abort + rat \<times> string option" where
  "domain_match query_lower skill =
     bindE (py_getitem skill ''name'') (\<lambda>name.
     bindE (py_lower name) (\<lambda>name_lower.
       if str_contains query_lower name_lower then Inr (9 / 10, Some ''name'')
       else
         bindE (py_getitem skill ''description'') (\<lambda>description.
         bindE (py_lower description) (\<lambda>description_lower.
           if str_contains query_lower description_lower
           then Inr (7 / 10, Some ''description'')
           else
             bindE (py_get skill ''tags'' (JArr [])) (\<lambda>tags.
             bindE (py_iter tags) (\<lambda>ts.
             bindE (any_contains query_lower ts) (\<lambda>hit.
               Inr (if hit then (8 / 10, Some ''tags'') else (0, None)))))))))"

definition sub_match :: "string \<Rightarrow> json \<Rightarrow> abort + rat \<times> string option" where
  "sub_match query_lower sub =
     bindE (py_getitem sub ''name'') (\<lambda>name.
     bindE (py_lower name) (\<lambda>name_lower.
       if str_contains query_lower name_lower then Inr (85 / 100, Some ''name'')
       else
         bindE (py_get sub ''triggers'' (JArr [])) (\<lambda>triggers.
         bindE (py_iter triggers) (\<lambda>ts.
         bindE (any_contains query_lower ts) (\<lambda>hit.
           Inr (if hit then (9 / 10, Some ''triggers'') else (0, None)))))))"

fun search_subs :: "string \<Rightarrow> json \<Rightarrow> json list \<Rightarrow> abort + result list" where
  "search_subs query_lower skill [] = Inr []"
| "search_subs query_lower skill (sub # subs) =
     (case bindE (sub_match query_lower sub) (\<lambda>(sub_score, sub_kind).
           if sub_score > 0
           then bindE (py_getitem skill ''name'') (\<lambda>domain.
                bindE (py_getitem sub ''name'') (\<lambda>name.
                  Inr [\<lparr>r_domain = domain, r_sub_skill = name, r_score = sub_score,
                        r_match = sub_kind\<rparr>]))
           else Inr []) of
        Inl e \<Rightarrow> Inl e
      | Inr found \<Rightarrow>
          (case search_subs query_lower skill subs of
             Inl e \<Rightarrow> Inl e
           | Inr rest \<Rightarrow> Inr (found @ rest)))"

text \<open>What one pass of the loop over \<^verbatim>\<open>index["skills"]\<close> appends for one domain: the
  domain-level entry, if any, then the entries of its sub-skills.\<close>

definition search_skill :: "string \<Rightarrow> json \<Rightarrow> abort + result list" where
  "search_skill query_lower skill =
     bindE (domain_match query_lower skill) (\<lambda>(score, match_type).
     bindE (if score > 0
            then bindE (py_getitem skill ''name'') (\<lambda>domain.
                   Inr [\<lparr>r_domain = domain, r_sub_skill = JNull, r_score = score,
                         r_match = match_type\<rparr>])
            else Inr []) (\<lambda>found.
     bindE (py_get skill ''sub_skills'' (JArr [])) (\<lambda>subs.
     bindE (py_iter subs) (\<lambda>sub_list.
     bindE (search_subs query_lower skill sub_list) (\<lambda>sub_found.
       Inr (found @ sub_found))))))"

fun search_loop :: "string \<Rightarrow> json list \<Rightarrow> abort + result list" where
  "search_loop query_lower [] = Inr []"
| "search_loop query_lower (skill # rest) =
     (case search_skill query_lower skill of
        Inl e \<Rightarrow> Inl e
      | Inr found \<Rightarrow>
          (case search_loop query_lower rest of
             Inl e \<Rightarrow> Inl e
           | Inr later \<Rightarrow> Inr (found @ later)))"

text \<open>\<^verbatim>\<open>results.sort(key=lambda x: x["score"], reverse=True)\<close> is stable: entries of
  equal score keep their order, as \<open>sort_key\<close> on the negated score does.\<close>

definition clamp_limit :: "int \<Rightarrow> nat" where
  "clamp_limit limit = nat (max 1 (min limit 100))"

definition search_skills ::
  "string \<Rightarrow> int \<Rightarrow> world \<Rightarrow> server \<Rightarrow> (abort + result search_reply) \<times> server" where
  "search_skills query limit w =
     (if query = [] \<or> strip query = [] then liftE (Inr (SearchError ''Query cannot be empty''))
      else if length query > 1000
      then liftE (Inr (SearchError ''Query too long (max 1000 characters)''))
      else bindS (track_usage ''search_skills'' (Some [(''query'', JStr query)]) w) (\<lambda>u.
           bindS (get_index w) (\<lambda>index.
             liftE (bindE (search_loop (lower query) (skills index)) (\<lambda>results.
                      Inr (SearchOk query
                             (take (clamp_limit limit)
                                (sort_key (\<lambda>x. - r_score x) results))))))))"

subsection \<open>Content search\<close>

record content_result =
  c_domain :: string
  c_sub_skill :: "string option"
  c_file :: string
  c_score :: rat
  c_snippet :: string

definition content_score :: "string \<Rightarrow> string list \<Rightarrow> string \<Rightarrow> rat" where
  "content_score query_lower query_words content =
     (if str_contains query_lower content
      then (if str_contains query_lower (take 500 content) then 12 / 10 else 1)
      else if list_all (\<lambda>word. str_contains word content) query_words
      then 7 / 10
           + min (of_nat (sum_list (map (\<lambda>word. str_count word content) query_words)) * (5 / 100))
               (2 / 10)
      else (let matches = length (filter (\<lambda>word. str_contains word content) query_words)
            in if matches > 0 then (3 / 10) * (of_nat matches / of_nat (length query_words))
               else 0))"

text \<open>\<^verbatim>\<open>round(score, 3)\<close> on the rational.\<close>

definition round3 :: "rat \<Rightarrow> rat" where
  "round3 x = of_int (round (x * 1000)) / 1000"

fun find_first_word :: "string list \<Rightarrow> string \<Rightarrow> nat option" where
  "find_first_word [] content = None"
| "find_first_word (word # ws) content =
     (case str_find word content of Some pos \<Rightarrow> Some pos | None \<Rightarrow> find_first_word ws content)"

definition extract_snippet :: "string \<Rightarrow> string \<Rightarrow> nat \<Rightarrow> string" where
  "extract_snippet content query max_length =
     (case (case str_find query content of
              Some pos \<Rightarrow> Some pos
            | None \<Rightarrow> find_first_word (split query) content) of
        None \<Rightarrow> take max_length content @ ''...''
      | Some pos \<Rightarrow>
          (let start = pos - 50;
               stop = min (length content) (pos + max_length);
               snippet = take (stop - start) (drop start content);
               snippet1 = (if start > 0 then ''...'' @ snippet else snippet);
               snippet2 = (if stop < length content then snippet1 @ ''...'' else snippet1)
           in strip (map (\<lambda>c. if c = CHR 0x0A then CHR '' '' else c) snippet2)))"

fun content_loop :: "string \<Rightarrow> string list \<Rightarrow> (string \<times> entry) list \<Rightarrow> content_result list" where
  "content_loop query_lower query_words [] = []"
| "content_loop query_lower query_words ((key, entry) # rest) =
     (let score = content_score query_lower query_words (e_content entry)
      in (if score > 0
          then [\<lparr>c_domain = e_domain entry, c_sub_skill = e_sub_skill entry,
                 c_file = e_file entry, c_score = round3 score,
                 c_snippet = extract_snippet (e_content entry) query_lower 150\<rparr>]
          else [])
         @ content_loop query_lower query_words rest)"

definition search_content ::
  "string \<Rightarrow> int \<Rightarrow> world \<Rightarrow> server \<Rightarrow> (abort + content_result search_reply) \<times> server" where
  "search_content query limit w =
     (if query = [] \<or> strip query = [] then liftE (Inr (SearchError ''Query cannot be empty''))
      else if length query > 1000
      then liftE (Inr (SearchError ''Query too long (max 1000 characters)''))
      else if length (split (lower query)) > 100
      then liftE (Inr (SearchError ''Too many search terms (max 100 words)''))
      else bindS (track_usage ''search_content'' (Some [(''query'', JStr query)]) w) (\<lambda>u.
           with_lock CONTENT_INDEX_LOCK
             (bindS (\<lambda>s. if CONTENT_INDEX s = None
                         then bindS (get_index w) (\<lambda>index. liftE (Inr ())) s
                         else (Inr (), s)) (\<lambda>u s.
                case CONTENT_INDEX s of
                  None \<Rightarrow> (Inl AttributeError, s)
                | Some items \<Rightarrow>
                    (Inr (SearchOk query
                            (take (clamp_limit limit)
                               (sort_key (\<lambda>x. - c_score x)
                                  (content_loop (lower query) (split (lower query)) items)))),
                     s)))))"

subsection \<open>Reload, statistics, validation\<close>

record reload_reply =
  skill_count :: nat
  content_files_indexed :: nat
  reload_errors :: "string list"

definition content_count :: "server \<Rightarrow> nat" where
  "content_count s = (case CONTENT_INDEX s of None \<Rightarrow> 0 | Some items \<Rightarrow> length items)"

definition reload_index :: "world \<Rightarrow> server \<Rightarrow> (abort + reload_reply) \<times> server" where
  "reload_index w =
     bindS (load_index w) (\<lambda>new_index.
     bindS (with_lock INDEX_LOCK (\<lambda>s. (Inr (), s\<lparr>INDEX := Some new_index\<rparr>))) (\<lambda>u.
     bindS (track_usage ''reload_index'' None w) (\<lambda>u.
     bindS (with_lock CONTENT_INDEX_LOCK (\<lambda>s. (Inr (content_count s), s))) (\<lambda>count s.
       case INDEX s of
         None \<Rightarrow> (Inl TypeError, s)
       | Some index \<Rightarrow>
           (Inr \<lparr>skill_count = length (skills index), content_files_indexed = count,
                 reload_errors = validation_errors index\<rparr>, s)))))"

text \<open>A new object: it gets the next free address of the heap.\<close>

definition alloc :: "pyobj \<Rightarrow> server \<Rightarrow> ref \<times> server" where
  "alloc obj s =
     (Addr (next_addr s),
      s\<lparr>heap := (heap s)(next_addr s \<mapsto> obj), next_addr := Suc (next_addr s)\<rparr>)"

text \<open>The object a reference denotes in a state.\<close>

fun deref :: "server \<Rightarrow> ref \<Rightarrow> pyobj option" where
  "deref s (Global G_tool_calls) = Some (Counts (tool_calls s))"
| "deref s (Global G_skill_loads) = Some (Counts (skill_loads s))"
| "deref s (Global G_searches) = Some (Entries (searches s))"
| "deref s (Addr a) = heap s a"

record stats =
  uptime_since :: string
  st_tool_calls :: ref
  st_skill_loads :: ref
  recent_searches :: ref
  total_skills :: nat
  st_content_files_indexed :: nat

text \<open>\<^verbatim>\<open>xs[-10:]\<close>.\<close>

definition last10 :: "'a list \<Rightarrow> 'a list" where
  "last10 xs = drop (length xs - 10) xs"

definition get_stats :: "world \<Rightarrow> server \<Rightarrow> (abort + stats) \<times> server" where
  "get_stats w =
     bindS (with_lock STATS_LOCK
              (\<lambda>s. case alloc (Counts (tool_calls s)) s of
                      (tc, s1) \<Rightarrow>
                        (case alloc (Counts (skill_loads s1)) s1 of
                           (sl, s2) \<Rightarrow>
                             (case alloc (Entries (last10 (searches s2))) s2 of
                                (rs, s3) \<Rightarrow>
                                  (Inr \<lparr>uptime_since = start_time s3, st_tool_calls = tc,
                                        st_skill_loads = sl, recent_searches = rs,
                                        total_skills = 0, st_content_files_indexed = 0\<rparr>,
                                   s3))))) (\<lambda>stats_copy.
     bindS (get_index w) (\<lambda>index.
     bindS (with_lock CONTENT_INDEX_LOCK (\<lambda>s. (Inr (content_count s), s))) (\<lambda>count.
       liftE (Inr (stats_copy\<lparr>total_skills := length (skills index),
                               st_content_files_indexed := count\<rparr>)))))"

record validation =
  valid :: bool
  v_errors :: "string list"
  warnings :: "string list"
  skills_checked :: nat

fun check_sub_files :: "world \<Rightarrow> string \<Rightarrow> json list \<Rightarrow> abort + string list" where
  "check_sub_files w skill_name [] = Inr []"
| "check_sub_files w skill_name (sub # subs) =
     (case py_getitem sub ''file'' of
        Inl e \<Rightarrow> Inl e
      | Inr (JStr f) \<Rightarrow>
          (case check_sub_files w skill_name subs of
             Inl e \<Rightarrow> Inl e
           | Inr rest \<Rightarrow>
               Inr ((if path_exists w [skill_name, f] then []
                     else [skill_name @ '': Sub-skill file not found: '' @ f]) @ rest))
      | Inr other \<Rightarrow> Inl TypeError)"

definition missing_skill_md :: "dirent \<Rightarrow> string list" where
  "missing_skill_md d = (if d_skill_md d = None then [d_name d @ '': Missing SKILL.md''] else [])"

text \<open>One pass of the loop of \<^verbatim>\<open>_validate_skills\<close>: the errors and the warnings it adds.\<close>

definition validate_dir :: "world \<Rightarrow> dirent \<Rightarrow> abort + string list \<times> string list" where
  "validate_dir w d =
     (if \<not> d_is_dir d then Inr ([], [])
      else (case d_meta d of
              NoMeta \<Rightarrow> Inr ([d_name d @ '': Missing _meta.json''], [])
            | ReadFails x e \<Rightarrow> Inl x
            | BadJson e \<Rightarrow>
                Inr (missing_skill_md d @ [d_name d @ '': Invalid JSON in _meta.json: '' @ e], [])
            | Parsed meta \<Rightarrow>
                bindE (validate_meta (str_of w) meta (d_name d)) (\<lambda>meta_errors.
                bindE (py_get meta ''sub_skills'' (JArr [])) (\<lambda>subs.
                bindE (py_iter subs) (\<lambda>sub_list.
                bindE (check_sub_files w (d_name d) sub_list) (\<lambda>file_errors.
                bindE (py_get meta ''tags'' JNull) (\<lambda>tags.
                bindE (py_get meta ''sub_skills'' JNull) (\<lambda>subs2.
                  Inr (missing_skill_md d @ meta_errors @ file_errors,
                       (if truthy tags then [] else [d_name d @ '': No tags defined''])
                       @ (if truthy subs2 then []
                          else [d_name d @ '': No sub-skills defined (standalone skill)'']))))))))))"

fun validate_dirs :: "world \<Rightarrow> dirent list \<Rightarrow> abort + string list \<times> string list" where
  "validate_dirs w [] = Inr ([], [])"
| "validate_dirs w (d # ds) =
     (case validate_dir w d of
        Inl e \<Rightarrow> Inl e
      | Inr (errors, warns) \<Rightarrow>
          (case validate_dirs w ds of
             Inl e \<Rightarrow> Inl e
           | Inr (errors2, warns2) \<Rightarrow> Inr (errors @ errors2, warns @ warns2)))"

definition validate_skills :: "world \<Rightarrow> server \<Rightarrow> (abort + validation) \<times> server" where
  "validate_skills w s =
     (if \<not> root_exists w then (Inl OSError, s)
      else (case validate_dirs w (listing w) of
              Inl e \<Rightarrow> (Inl e, s)
            | Inr (errors, warns) \<Rightarrow>
                (Inr \<lparr>valid = (errors = []), v_errors = errors, warnings = warns,
                      skills_checked = length (filter d_is_dir (listing w))\<rparr>, s)))"


section \<open>Initial state and reachable states\<close>

text \<open>The module globals right after import, \<open>t0\<close> being the time of the import.\<close>

definition init_server :: "string \<Rightarrow> server" where
  "init_server t0 =
     \<lparr>INDEX = None, CONTENT_INDEX = None, FILE_MTIMES = [], tool_calls = [], skill_loads = [],
      searches = [], start_time = t0, heap = Map.empty, next_addr = 0, held = [],
      lock_log = []\<rparr>"



section \<open>Concrete environments\<close>

text \<open>An empty skills directory; \<^verbatim>\<open>str()\<close> is only followed on strings.\<close>

definition bare_world :: world where
  "bare_world =
     \<lparr>str_of = (\<lambda>j. case j of JStr s \<Rightarrow> s | _ \<Rightarrow> ''?''), now = ''2024-01-01T00:00:00'',
      root_exists = True, listing = [], path_inside = (\<lambda>p. True), path_exists = (\<lambda>p. False),
      read_text = (\<lambda>p. Inl ''missing'')\<rparr>"



text \<open>The counter of a tool, 0 when the tool has no entry yet.\<close>

definition calls :: "server \<Rightarrow> string \<Rightarrow> int" where
  "calls s tool_name =
     (case map_of (tool_calls s) (JStr tool_name) of None \<Rightarrow> 0 | Some n \<Rightarrow> n)"

text \<open>The checks that \<^verbatim>\<open>_search_skills\<close> and \<^verbatim>\<open>_search_content\<close> make before they record
  the call.\<close>

definition valid_query :: "string \<Rightarrow> bool" where
  "valid_query query = (\<not> (query = [] \<or> strip query = []) \<and> \<not> length query > 1000)"


definition has_name :: "json \<Rightarrow> bool" where
  "has_name x = (case py_getitem x ''name'' of Inl e \<Rightarrow> False | Inr n \<Rightarrow> True)"









text \<open>A domain \<^verbatim>\<open>forms\<close> whose description and tags both contain \<^verbatim>\<open>html\<close>.\<close>

definition forms_meta :: json where
  "forms_meta =
     JObj [(''name'', JStr ''forms''), (''description'', JStr ''Building HTML forms''),
           (''tags'', JArr [JStr ''html'', JStr ''validation'']),
           (''sub_skills'',
            JArr [JObj [(''name'', JStr ''validation''), (''file'', JStr ''references/validation.md''),
                        (''triggers'', JArr [JStr ''zod''])]])]"

definition forms_dir :: dirent where
  "forms_dir =
     \<lparr>d_name = ''forms'', d_is_dir = True, d_meta = Parsed forms_meta,
      d_skill_md = Some (Inr ''# Forms''),
      d_references = [\<lparr>md_name = ''validation.md'', md_stem = ''validation'',
                        md_read = Inr ''Validate with Zod''\<rparr>],
      d_scripts = [],
      d_tree = [(''skills/forms/SKILL.md'', AFile (Some 1)),
                (''skills/forms/references'', NotAFile),
                (''skills/forms/references/validation.md'', AFile (Some 2))]\<rparr>"

definition forms_world :: world where
  "forms_world =
     bare_world
       \<lparr>listing := [forms_dir],
        path_exists := (\<lambda>p. p = [''forms'', ''SKILL.md'']
                           \<or> p = [''forms'', ''references/validation.md'']
                           \<or> p = [''forms'', ''references'']),
        read_text := (\<lambda>p. if p = [''forms'', ''SKILL.md''] then Inr ''# Forms''
                           else if p = [''forms'', ''references/validation.md'']
                           then Inr ''Validate with Zod''
                           else Inl ''No such file'')\<rparr>"

text \<open>The state after the first \<^verbatim>\<open>get_index()\<close> on that directory.\<close>

definition forms_loaded :: server where
  "forms_loaded = snd (get_index forms_world (init_server ''2024-01-01T00:00:00''))"

text \<open>A domain whose \<^verbatim>\<open>SKILL.md\<close> is 498 times \<^verbatim>\<open>a\<close> followed by \<^verbatim>\<open>xyz\<close>, and the state
  after the first \<^verbatim>\<open>get_index()\<close> on it.\<close>

definition edge_world :: world where
  "edge_world =
     bare_world\<lparr>listing :=
       [\<lparr>d_name = ''edge'', d_is_dir = True, d_meta = NoMeta,
         d_skill_md = Some (Inr (replicate 498 (CHR ''a'') @ ''xyz'')), d_references = [],
         d_scripts = [], d_tree = []\<rparr>]\<rparr>"

definition edge_loaded :: server where
  "edge_loaded = snd (get_index edge_world (init_server ''2024-01-01T00:00:00''))"

text \<open>Two domains: \<^verbatim>\<open>bad\<close>, whose \<^verbatim>\<open>_meta.json\<close> lists the number 1 as a sub-skill, then
  \<^verbatim>\<open>forms\<close>. In \<open>number_world\<close> the file of \<^verbatim>\<open>bad\<close> holds the number 5 and nothing else.\<close>

definition bad_meta :: json where
  "bad_meta =
     JObj [(''name'', JStr ''bad''), (''description'', JStr ''d''), (''sub_skills'', JArr [JNum 1])]"

definition bad_dir :: "json \<Rightarrow> dirent" where
  "bad_dir meta =
     \<lparr>d_name = ''bad'', d_is_dir = True, d_meta = Parsed meta, d_skill_md = None,
      d_references = [], d_scripts = [], d_tree = []\<rparr>"

definition broken_world :: world where
  "broken_world = bare_world\<lparr>listing := [bad_dir bad_meta, forms_dir]\<rparr>"

definition number_world :: world where
  "number_world = bare_world\<lparr>listing := [bad_dir (JNum 5), forms_dir]\<rparr>"



text \<open>The state after eleven searches for \<^verbatim>\<open>"q"\<close>, written out.\<close>

definition eleven_searches :: server where
  "eleven_searches =
     (init_server ''2024-01-01T00:00:00'')
       \<lparr>tool_calls := [(JStr ''search_skills'', 11)],
        searches := replicate 11 (JStr ''q'', ''2024-01-01T00:00:00'')\<rparr>"


section \<open>Properties\<close>

subsection \<open>Usage tracking\<close>

lemma track_usage_fst: "STATS_LOCK \<notin> set (held s) \<Longrightarrow> fst (track_usage t d w s) = Inr ()"
  by (simp add: track_usage_def with_lock_def Let_def split: option.splits)

lemma track_usage_held: "held (snd (track_usage t d w s)) = held s"
  by (simp add: track_usage_def with_lock_def Let_def split: option.splits)


lemma track_usage_tool_calls:
  "STATS_LOCK \<notin> set (held s) \<Longrightarrow>
   tool_calls (snd (track_usage t d w s)) = bump (JStr t) (tool_calls s)"
  by (auto simp add: track_usage_def with_lock_def Let_def split: option.splits)









subsection \<open>Metadata search\<close>

lemma track_usage_deadlock:
  "STATS_LOCK \<in> set (held s) \<Longrightarrow> track_usage t d w s = (Inl Deadlock, s)"
  by (simp add: track_usage_def with_lock_def)

lemma track_usage_INDEX: "INDEX (snd (track_usage t d w s)) = INDEX s"
  by (simp add: track_usage_def with_lock_def Let_def split: option.splits)

lemma track_usage_CONTENT_INDEX: "CONTENT_INDEX (snd (track_usage t d w s)) = CONTENT_INDEX s"
  by (simp add: track_usage_def with_lock_def Let_def split: option.splits)

lemma get_index_fst_cong:
  "INDEX s = INDEX s' \<Longrightarrow> held s = held s' \<Longrightarrow> fst (get_index w s) = fst (get_index w s')"
  by (auto simp add: get_index_def with_lock_def load_index_def bindS_def liftE_def
      split: option.splits sum.splits prod.splits abort.splits if_splits)

lemma get_index_loaded:
  "INDEX s = Some index \<Longrightarrow> INDEX_LOCK \<notin> set (held s) \<Longrightarrow>
   get_index w s = (Inr index, s\<lparr>lock_log := lock_log s @ [INDEX_LOCK # held s]\<rparr>)"
  by (simp add: get_index_def with_lock_def)

lemma get_index_deadlock:
  "INDEX_LOCK \<in> set (held s) \<Longrightarrow> get_index w s = (Inl Deadlock, s)"
  by (simp add: get_index_def with_lock_def)

lemma search_skills_fst:
  "fst (search_skills q limit w s) =
     (if q = [] \<or> strip q = [] then Inr (SearchError ''Query cannot be empty'')
      else if length q > 1000 then Inr (SearchError ''Query too long (max 1000 characters)'')
      else if STATS_LOCK \<in> set (held s) then Inl Deadlock
      else bindE (fst (get_index w s)) (\<lambda>index.
           bindE (search_loop (lower q) (skills index)) (\<lambda>results.
             Inr (SearchOk q (take (clamp_limit limit) (sort_key (\<lambda>x. - r_score x) results))))))"
proof -
  have g: "fst (get_index w (snd (track_usage t d w s))) = fst (get_index w s)" for t d
    by (rule get_index_fst_cong) (simp_all add: track_usage_INDEX track_usage_held)
  show ?thesis
  proof (cases "STATS_LOCK \<in> set (held s)")
    case True
    then show ?thesis
      by (simp add: search_skills_def liftE_def bindS_def track_usage_deadlock)
  next
    case False
    obtain s1 where t: "track_usage ''search_skills'' (Some [(''query'', JStr q)]) w s = (Inr (), s1)"
      using track_usage_fst [OF False, of "''search_skills''" "Some [(''query'', JStr q)]" w]
      by (metis prod.collapse)
    have "fst (get_index w s1) = fst (get_index w s)" using g [of "''search_skills''" "Some [(''query'', JStr q)]"] t by simp
    then show ?thesis using False t
      by (auto simp add: search_skills_def liftE_def bindS_def bindE_def split: prod.splits sum.splits)
  qed
qed





lemma py_lower_Inr: "py_lower v = Inr l \<Longrightarrow> \<exists>t. v = JStr t \<and> l = lower t"
  by (cases v) auto

lemma sub_match_name:
  "sub_match q sub = Inr r \<Longrightarrow> \<exists>t. py_getitem sub ''name'' = Inr (JStr t)"
  by (auto simp add: sub_match_def bindE_def split: sum.splits dest: py_lower_Inr)

lemma search_subs_not_null:
  "search_subs q skill subs = Inr rs \<Longrightarrow> r \<in> set rs \<Longrightarrow> r_sub_skill r \<noteq> JNull"
proof (induction subs arbitrary: rs)
  case Nil
  then show ?case by simp
next
  case (Cons sub subs)
  then show ?case
    by (auto simp add: bindE_def split: sum.splits prod.splits if_splits dest!: sub_match_name)
qed

lemma filter_null_subs:
  "search_subs q skill subs = Inr rs \<Longrightarrow> filter (\<lambda>r. P r \<and> r_sub_skill r = JNull) rs = []"
  by (auto simp add: filter_empty_conv dest: search_subs_not_null)

lemma search_skill_other:
  assumes "search_skill q x = Inr rs" and "py_getitem x ''name'' \<noteq> Inr (JStr n)"
  shows "filter (\<lambda>r. r_domain r = JStr n \<and> r_sub_skill r = JNull) rs = []"
  using assms
  by (auto simp add: search_skill_def bindE_def filter_null_subs
      split: sum.splits prod.splits if_splits)

lemma domain_match_description:
  assumes "py_getitem skill ''name'' = Inr (JStr n)"
    and "py_getitem skill ''description'' = Inr (JStr d)"
    and "\<not> str_contains q (lower n)" and "str_contains q (lower d)"
  shows "domain_match q skill = Inr (7 / 10, Some ''description'')"
  using assms by (simp add: domain_match_def bindE_def)

lemma search_skill_description:
  assumes "search_skill q skill = Inr rs"
    and "py_getitem skill ''name'' = Inr (JStr n)"
    and "py_getitem skill ''description'' = Inr (JStr d)"
    and "\<not> str_contains q (lower n)" and "str_contains q (lower d)"
  shows "filter (\<lambda>r. r_domain r = JStr n \<and> r_sub_skill r = JNull) rs
         = [\<lparr>r_domain = JStr n, r_sub_skill = JNull, r_score = 7 / 10,
             r_match = Some ''description''\<rparr>]"
  using assms(1) domain_match_description [OF assms(2-5)] assms(2)
  by (auto simp add: search_skill_def bindE_def filter_null_subs split: sum.splits)

lemma search_loop_filter:
  assumes "search_loop q xs = Inr found"
    and "\<And>x. x \<in> set xs \<Longrightarrow> py_getitem x ''name'' = Inr (JStr n) \<Longrightarrow> x = skill"
    and "py_getitem skill ''name'' = Inr (JStr n)"
    and "py_getitem skill ''description'' = Inr (JStr d)"
    and "\<not> str_contains q (lower n)" and "str_contains q (lower d)"
  shows "filter (\<lambda>r. r_domain r = JStr n \<and> r_sub_skill r = JNull) found
         = replicate (length (filter (\<lambda>x. x = skill) xs))
             \<lparr>r_domain = JStr n, r_sub_skill = JNull, r_score = 7 / 10,
              r_match = Some ''description''\<rparr>"
  using assms(1,2)
proof (induction xs arbitrary: found)
  case Nil
  then show ?case by simp
next
  case (Cons x xs)
  from Cons.prems(1) obtain a b where a: "search_skill q x = Inr a"
    and b: "search_loop q xs = Inr b" and f: "found = a @ b"
    by (auto split: sum.splits)
  have ih: "filter (\<lambda>r. r_domain r = JStr n \<and> r_sub_skill r = JNull) b
         = replicate (length (filter (\<lambda>x. x = skill) xs))
             \<lparr>r_domain = JStr n, r_sub_skill = JNull, r_score = 7 / 10,
              r_match = Some ''description''\<rparr>"
    using Cons.IH [OF b] Cons.prems(2) by simp
  show ?case
  proof (cases "x = skill")
    case True
    then show ?thesis
      using search_skill_description [OF _ assms(3-6)] a f ih by simp
  next
    case False
    then have "py_getitem x ''name'' \<noteq> Inr (JStr n)" using Cons.prems(2) by auto
    then show ?thesis using search_skill_other [OF a] f ih False by simp
  qed
qed

lemma filter_sort_single:
  assumes "filter P xs = [e]"
  shows "filter P (sort_key f xs) = [e]"
proof -
  have "mset (filter P (sort_key f xs)) = mset (filter P xs)" by simp
  also have "\<dots> = {#e#}" using assms by (simp del: mset_filter)
  finally show ?thesis by (simp only: mset_single_iff)
qed

lemma search_skills_ok:
  assumes "INDEX s = Some index" and "fst (search_skills q limit w s) = Inr (SearchOk q' rs)"
  shows "\<exists>found. search_loop (lower q) (skills index) = Inr found \<and>
           rs = take (clamp_limit limit) (sort_key (\<lambda>x. - r_score x) found)"
proof -
  have "INDEX_LOCK \<notin> set (held s)"
    using assms(2) by (auto simp add: search_skills_fst get_index_deadlock bindE_def split: if_splits)
  then have "fst (get_index w s) = Inr index" using assms(1) by (simp add: get_index_loaded)
  then show ?thesis using assms(2)
    by (auto simp add: search_skills_fst bindE_def split: if_splits sum.splits)
qed

text \<open>
  Claim C1, as the code has it. The chain on a domain is name, then description, then
  tags. When the query is not in the name of a domain but is in its description, then,
  whatever its tags, a search that returns has collected exactly one domain-level entry
  for that domain name (the name being that of one record of the index only), with match
  type \<^verbatim>\<open>description\<close> and score 0.7; the entry is in the reply unless the limit cuts
  the list.
\<close>

theorem description_rule_before_tags:
  assumes "INDEX s = Some index"
    and "fst (search_skills q limit w s) = Inr (SearchOk q' rs)"
    and "filter (\<lambda>x. py_getitem x ''name'' = Inr (JStr n)) (skills index) = [skill]"
    and "py_getitem skill ''description'' = Inr (JStr d)"
    and "\<not> str_contains (lower q) (lower n)" and "str_contains (lower q) (lower d)"
  shows "\<exists>found. search_loop (lower q) (skills index) = Inr found \<and>
           rs = take (clamp_limit limit) (sort_key (\<lambda>x. - r_score x) found) \<and>
           filter (\<lambda>r. r_domain r = JStr n \<and> r_sub_skill r = JNull)
             (sort_key (\<lambda>x. - r_score x) found)
           = [\<lparr>r_domain = JStr n, r_sub_skill = JNull, r_score = 7 / 10,
               r_match = Some ''description''\<rparr>] \<and>
           (length found \<le> clamp_limit limit \<longrightarrow>
              filter (\<lambda>r. r_domain r = JStr n \<and> r_sub_skill r = JNull) rs
              = [\<lparr>r_domain = JStr n, r_sub_skill = JNull, r_score = 7 / 10,
                  r_match = Some ''description''\<rparr>])"
proof -
  obtain found where f: "search_loop (lower q) (skills index) = Inr found"
    and r: "rs = take (clamp_limit limit) (sort_key (\<lambda>x. - r_score x) found)"
    using search_skills_ok [OF assms(1,2)] by blast
  have m: "skill \<in> set (filter (\<lambda>x. py_getitem x ''name'' = Inr (JStr n)) (skills index))"
    using assms(3) by simp
  then have name: "py_getitem skill ''name'' = Inr (JStr n)" by simp
  have u: "x = skill" if "x \<in> set (skills index)" "py_getitem x ''name'' = Inr (JStr n)" for x
  proof -
    have "x \<in> set (filter (\<lambda>x. py_getitem x ''name'' = Inr (JStr n)) (skills index))"
      using that by simp
    then show ?thesis using assms(3) by simp
  qed
  have "filter (\<lambda>x. x = skill) (skills index)
        = filter (\<lambda>x. x = skill) (filter (\<lambda>x. py_getitem x ''name'' = Inr (JStr n)) (skills index))"
    using name by (auto intro: filter_cong)
  then have c: "length (filter (\<lambda>x. x = skill) (skills index)) = 1"
    using assms(3) by simp
  have "filter (\<lambda>r. r_domain r = JStr n \<and> r_sub_skill r = JNull) found
        = [\<lparr>r_domain = JStr n, r_sub_skill = JNull, r_score = 7 / 10,
            r_match = Some ''description''\<rparr>]"
    using search_loop_filter [OF f u name assms(4,5,6)] c by simp
  then have "filter (\<lambda>r. r_domain r = JStr n \<and> r_sub_skill r = JNull)
               (sort_key (\<lambda>x. - r_score x) found)
        = [\<lparr>r_domain = JStr n, r_sub_skill = JNull, r_score = 7 / 10,
            r_match = Some ''description''\<rparr>]"
    by (rule filter_sort_single)
  then show ?thesis using f r by auto
qed

theorem description_rule_before_tags_witness:
  "INDEX forms_loaded = Some \<lparr>skills = [forms_meta], validation_errors = []\<rparr> \<and>
   fst (search_skills ''html'' 5 forms_world forms_loaded)
     = Inr (SearchOk ''html'' [\<lparr>r_domain = JStr ''forms'', r_sub_skill = JNull,
                                r_score = 7 / 10, r_match = Some ''description''\<rparr>]) \<and>
   filter (\<lambda>x. py_getitem x ''name'' = Inr (JStr ''forms'')) [forms_meta] = [forms_meta] \<and>
   py_getitem forms_meta ''description'' = Inr (JStr ''Building HTML forms'') \<and>
   \<not> str_contains (lower ''html'') (lower ''forms'') \<and>
   str_contains (lower ''html'') (lower ''Building HTML forms'') \<and>
   any_contains (lower ''html'') [JStr ''html'', JStr ''validation''] = Inr True \<and>
   filter (\<lambda>r. r_domain r = JStr ''forms'' \<and> r_sub_skill r = JNull)
     [\<lparr>r_domain = JStr ''forms'', r_sub_skill = JNull, r_score = 7 / 10,
       r_match = Some ''description''\<rparr>]
   = [\<lparr>r_domain = JStr ''forms'', r_sub_skill = JNull, r_score = 7 / 10,
       r_match = Some ''description''\<rparr>]"
proof -
  have h1: "INDEX forms_loaded = Some \<lparr>skills = [forms_meta], validation_errors = []\<rparr>"
    by code_simp
  have h2: "fst (search_skills ''html'' 5 forms_world forms_loaded)
     = Inr (SearchOk ''html'' [\<lparr>r_domain = JStr ''forms'', r_sub_skill = JNull,
                                r_score = 7 / 10, r_match = Some ''description''\<rparr>])"
    by code_simp
  have h3: "filter (\<lambda>x. py_getitem x ''name'' = Inr (JStr ''forms''))
              (skills \<lparr>skills = [forms_meta], validation_errors = []\<rparr>) = [forms_meta]"
    by code_simp
  have h4: "py_getitem forms_meta ''description'' = Inr (JStr ''Building HTML forms'')"
    by code_simp
  have h5: "\<not> str_contains (lower ''html'') (lower ''forms'')" by code_simp
  have h6: "str_contains (lower ''html'') (lower ''Building HTML forms'')" by code_simp
  have h7: "any_contains (lower ''html'') [JStr ''html'', JStr ''validation''] = Inr True"
    by code_simp
  have h8: "search_loop (lower ''html'') [forms_meta]
            = Inr [\<lparr>r_domain = JStr ''forms'', r_sub_skill = JNull,
                                r_score = 7 / 10, r_match = Some ''description''\<rparr>]"
    by code_simp
  have h9: "clamp_limit 5 = 5" by (simp add: clamp_limit_def)
  from description_rule_before_tags [OF h1 h2 h3 h4 h5 h6] h8 h9
  have "filter (\<lambda>r. r_domain r = JStr ''forms'' \<and> r_sub_skill r = JNull)
     [\<lparr>r_domain = JStr ''forms'', r_sub_skill = JNull, r_score = 7 / 10,
       r_match = Some ''description''\<rparr>]
   = [\<lparr>r_domain = JStr ''forms'', r_sub_skill = JNull, r_score = 7 / 10,
       r_match = Some ''description''\<rparr>]"
    by auto
  then show ?thesis using h1 h2 h3 h4 h5 h6 h7 by simp
qed

text \<open>
  Claim C1 as stated fails: the name \<^verbatim>\<open>forms\<close> does not contain \<^verbatim>\<open>html\<close>, the description
  and the tag \<^verbatim>\<open>html\<close> do, and the only entry returned has match type \<^verbatim>\<open>description\<close>
  and score 0.7, not \<^verbatim>\<open>tags\<close> and 0.8.
\<close>

theorem tags_rule_counterexample:
  "\<not> str_contains (lower ''html'') (lower ''forms'') \<and>
   str_contains (lower ''html'') (lower ''Building HTML forms'') \<and>
   any_contains (lower ''html'') [JStr ''html'', JStr ''validation''] = Inr True \<and>
   fst (search_skills ''html'' 5 forms_world (init_server ''2024-01-01T00:00:00''))
     = Inr (SearchOk ''html'' [\<lparr>r_domain = JStr ''forms'', r_sub_skill = JNull,
                                r_score = 7 / 10, r_match = Some ''description''\<rparr>])"
  by code_simp


subsection \<open>Content search\<close>

lemma str_contains_iff: "str_contains q s \<longleftrightarrow> (\<exists>i. prefix q (drop i s))"
proof (induction s)
  case Nil
  then show ?case by simp
next
  case (Cons c cs)
  have "(\<exists>i. prefix q (drop i (c # cs))) \<longleftrightarrow> prefix q (c # cs) \<or> (\<exists>j. prefix q (drop j cs))"
  proof
    assume "\<exists>i. prefix q (drop i (c # cs))"
    then obtain i where i: "prefix q (drop i (c # cs))" ..
    then show "prefix q (c # cs) \<or> (\<exists>j. prefix q (drop j cs))"
      by (cases i) auto
  next
    assume "prefix q (c # cs) \<or> (\<exists>j. prefix q (drop j cs))"
    then show "\<exists>i. prefix q (drop i (c # cs))"
    proof
      assume "prefix q (c # cs)"
      then have "prefix q (drop 0 (c # cs))" by simp
      then show ?thesis ..
    next
      assume "\<exists>j. prefix q (drop j cs)"
      then obtain j where "prefix q (drop j cs)" ..
      then have "prefix q (drop (Suc j) (c # cs))" by simp
      then show ?thesis ..
    qed
  qed
  then show ?case using Cons by simp
qed

lemma str_find_Some:
  "str_find q s = Some p \<Longrightarrow> prefix q (drop p s) \<and> (\<forall>j<p. \<not> prefix q (drop j s))"
proof (induction s arbitrary: p)
  case Nil
  then show ?case by (simp split: if_splits)
next
  case (Cons c cs)
  show ?case
  proof (cases "prefix q (c # cs)")
    case True
    then show ?thesis using Cons.prems by simp
  next
    case False
    then obtain p' where p': "str_find q cs = Some p'" and p: "p = Suc p'"
      using Cons.prems by auto
    have ih: "prefix q (drop p' cs) \<and> (\<forall>j<p'. \<not> prefix q (drop j cs))"
      using Cons.IH [OF p'] .
    have "\<not> prefix q (drop j (c # cs))" if "j < p" for j
      using that False ih p by (cases j) auto
    then show ?thesis using ih p by simp
  qed
qed

lemma str_find_None: "str_find q s = None \<Longrightarrow> \<not> str_contains q s"
  by (induction s) (auto split: if_splits)

lemma str_contains_find: "str_contains q s \<Longrightarrow> \<exists>p. str_find q s = Some p"
  using str_find_None by (cases "str_find q s") auto

lemma prefix_drop_take:
  "prefix q (drop i (take n s)) \<longleftrightarrow> prefix q (drop i s) \<and> (q = [] \<or> i + length q \<le> n)"
proof -
  have d: "drop i (take n s) = take (n - i) (drop i s)" by (simp add: drop_take)
  show ?thesis
  proof (cases "q = []")
    case True
    then show ?thesis by simp
  next
    case False
    show ?thesis
    proof
      assume a: "prefix q (drop i (take n s))"
      then have "prefix q (take (n - i) (drop i s))" using d by simp
      then have 1: "prefix q (drop i s)" using take_is_prefix prefix_order.trans by blast
      have "length q \<le> length (take (n - i) (drop i s))"
        using a d prefix_length_le by metis
      then have "length q \<le> n - i" by simp
      moreover have "0 < length q" using False by simp
      ultimately have "i + length q \<le> n" by linarith
      then show "prefix q (drop i s) \<and> (q = [] \<or> i + length q \<le> n)" using 1 by simp
    next
      assume a: "prefix q (drop i s) \<and> (q = [] \<or> i + length q \<le> n)"
      then have l: "length q \<le> n - i" using False by linarith
      from a obtain r where r: "drop i s = q @ r" by (auto simp add: prefix_def)
      have "take (n - i) (drop i s) = q @ take (n - i - length q) r"
        using r l by simp
      then show "prefix q (drop i (take n s))" using d by simp
    qed
  qed
qed

lemma str_contains_take:
  assumes "str_find q s = Some p"
  shows "str_contains q (take n s) \<longleftrightarrow> q = [] \<or> p + length q \<le> n"
proof -
  have f: "prefix q (drop p s)" and m: "\<And>j. j < p \<Longrightarrow> \<not> prefix q (drop j s)"
    using str_find_Some [OF assms] by auto
  show ?thesis
  proof
    assume "str_contains q (take n s)"
    then obtain i where i: "prefix q (drop i (take n s))"
      by (auto simp add: str_contains_iff)
    then have 1: "prefix q (drop i s)" and 2: "q = [] \<or> i + length q \<le> n"
      by (simp_all add: prefix_drop_take)
    have "p \<le> i" using m [of i] 1 by (cases "i < p") auto
    then show "q = [] \<or> p + length q \<le> n" using 2 by auto
  next
    assume "q = [] \<or> p + length q \<le> n"
    then have "prefix q (drop p (take n s))" using f by (simp add: prefix_drop_take)
    then show "str_contains q (take n s)" by (auto simp add: str_contains_iff)
  qed
qed

lemma round3_values: "round3 (12 / 10) = 12 / 10" "round3 1 = 1"
  by code_simp+

lemma str_find_empty: "str_find [] s = Some 0"
  by (cases s) simp_all

text \<open>
  Claim C3, as the code has it. When the content contains the lower-cased query, the score
  of the entry is 1.2 if the first occurrence of the query lies wholly within the first 500
  characters (it starts at \<open>p\<close> with \<open>p + length q \<le> 500\<close>), and 1.0 otherwise; rounding
  to three decimals leaves both values as they are.
\<close>

theorem exact_phrase_score:
  assumes "str_contains q content"
  shows "\<exists>p. str_find q content = Some p \<and>
           content_score q ws content = (if p + length q \<le> 500 then 12 / 10 else 1) \<and>
           round3 (content_score q ws content) = content_score q ws content"
proof -
  obtain p where p: "str_find q content = Some p" using str_contains_find [OF assms] by blast
  have "q = [] \<Longrightarrow> p = 0" using p by (simp add: str_find_empty)
  then have "(q = [] \<or> p + length q \<le> 500) = (p + length q \<le> 500)" by auto
  then have "content_score q ws content = (if p + length q \<le> 500 then 12 / 10 else 1)"
    using assms str_contains_take [OF p, of 500] by (simp add: content_score_def)
  moreover have "round3 (if p + length q \<le> 500 then 12 / 10 else 1)
                 = (if p + length q \<le> 500 then 12 / 10 else 1)"
    by (simp only: round3_values if_distrib [of round3] cong: if_cong)
  ultimately show ?thesis using p by simp
qed

theorem exact_phrase_score_witness:
  "str_contains ''xyz'' (replicate 498 (CHR ''a'') @ ''xyz'') \<and>
   str_find ''xyz'' (replicate 498 (CHR ''a'') @ ''xyz'') = Some 498 \<and>
   content_score ''xyz'' [''xyz''] (replicate 498 (CHR ''a'') @ ''xyz'') = 1 \<and>
   str_contains ''aaa'' (replicate 498 (CHR ''a'') @ ''xyz'') \<and>
   str_find ''aaa'' (replicate 498 (CHR ''a'') @ ''xyz'') = Some 0 \<and>
   content_score ''aaa'' [''aaa''] (replicate 498 (CHR ''a'') @ ''xyz'') = 12 / 10"
proof -
  have h1: "str_contains ''xyz'' (replicate 498 (CHR ''a'') @ ''xyz'')" by code_simp
  have f1: "str_find ''xyz'' (replicate 498 (CHR ''a'') @ ''xyz'') = Some 498" by code_simp
  have h2: "str_contains ''aaa'' (replicate 498 (CHR ''a'') @ ''xyz'')" by code_simp
  have f2: "str_find ''aaa'' (replicate 498 (CHR ''a'') @ ''xyz'') = Some 0" by code_simp
  show ?thesis
    using h1 f1 h2 f2 exact_phrase_score [OF h1, of "[''xyz'']"] exact_phrase_score [OF h2, of "[''aaa'']"]
    by simp
qed

text \<open>
  Claim C3 as stated fails: in a content of 498 times \<^verbatim>\<open>a\<close> followed by \<^verbatim>\<open>xyz\<close> the match
  of \<^verbatim>\<open>xyz\<close> is at position 498, within the first 500 characters, and the score returned
  is 1.0: \<^verbatim>\<open>content[:500]\<close> ends with \<^verbatim>\<open>xy\<close>.
\<close>

theorem match_position_counterexample:
  "str_contains (lower ''xyz'') (lower (replicate 498 (CHR ''a'') @ ''xyz'')) \<and>
   str_find (lower ''xyz'') (lower (replicate 498 (CHR ''a'') @ ''xyz'')) = Some 498 \<and>
   fst (search_content ''xyz'' 10 edge_world edge_loaded)
     = Inr (SearchOk ''xyz''
         [\<lparr>c_domain = ''edge'', c_sub_skill = None, c_file = ''SKILL.md'', c_score = 1,
           c_snippet = ''...'' @ replicate 50 (CHR ''a'') @ ''xyz''\<rparr>])"
  by code_simp

subsection \<open>Loading the index\<close>

text \<open>
  Claim C2, evaluated where it fails. A \<^verbatim>\<open>_meta.json\<close> whose \<^verbatim>\<open>sub_skills\<close> list holds a
  number, or that is a number itself, makes \<^verbatim>\<open>validate_meta\<close> raise \<^verbatim>\<open>TypeError\<close> at
  \<^verbatim>\<open>field not in sub\<close>; \<^verbatim>\<open>load_index\<close> catches \<^verbatim>\<open>JSONDecodeError\<close>, \<^verbatim>\<open>OSError\<close> and
  \<^verbatim>\<open>UnicodeDecodeError\<close> only, so the exception leaves it: no snapshot is returned and the
  well-formed domain \<^verbatim>\<open>forms\<close> next to it is not loaded.
\<close>

theorem load_index_raises_evaluated:
  "validate_meta (str_of broken_world) bad_meta ''bad'' = Inl TypeError \<and>
   fst (load_index broken_world (init_server ''2024-01-01T00:00:00'')) = Inl TypeError \<and>
   fst (load_index number_world (init_server ''2024-01-01T00:00:00'')) = Inl TypeError \<and>
   fst (list_skills broken_world (init_server ''2024-01-01T00:00:00'')) = Inl TypeError \<and>
   INDEX (snd (list_skills broken_world (init_server ''2024-01-01T00:00:00''))) = None"
  by code_simp

subsection \<open>Locks\<close>

text \<open>
  Claim C9, evaluated where it fails. The first \<^verbatim>\<open>get_index()\<close> holds \<^verbatim>\<open>_INDEX_LOCK\<close>
  while \<^verbatim>\<open>load_index\<close> takes \<^verbatim>\<open>_CONTENT_INDEX_LOCK\<close>: two locks are held at once. The first
  \<^verbatim>\<open>_search_content\<close> holds \<^verbatim>\<open>_CONTENT_INDEX_LOCK\<close>, calls \<^verbatim>\<open>get_index()\<close> and blocks for
  ever when \<^verbatim>\<open>load_index\<close> asks for the lock again. \<^verbatim>\<open>_reload_index\<close> takes one lock at a
  time.
\<close>

theorem nested_locks_evaluated:
  "lock_log (snd (get_index forms_world (init_server ''2024-01-01T00:00:00'')))
     = [[INDEX_LOCK], [CONTENT_INDEX_LOCK, INDEX_LOCK]] \<and>
   fst (search_content ''forms'' 10 forms_world (init_server ''2024-01-01T00:00:00''))
     = Inl Deadlock \<and>
   lock_log (snd (search_content ''forms'' 10 forms_world (init_server ''2024-01-01T00:00:00'')))
     = [[STATS_LOCK], [CONTENT_INDEX_LOCK], [INDEX_LOCK, CONTENT_INDEX_LOCK]] \<and>
   lock_log (snd (reload_index forms_world (init_server ''2024-01-01T00:00:00'')))
     = [[CONTENT_INDEX_LOCK], [INDEX_LOCK], [STATS_LOCK], [CONTENT_INDEX_LOCK]]"
  by code_simp

subsection \<open>Change detection\<close>












subsection \<open>Which calls are counted\<close>

lemma map_of_bump:
  "map_of (bump k d) k' = (if k' = k then Some ((case map_of d k of None \<Rightarrow> 0 | Some n \<Rightarrow> n) + 1) else map_of d k')"
  by (auto simp add: bump_def Let_def update_conv' split: option.splits)

lemma calls_bump:
  "tool_calls s' = bump (JStr t) (tool_calls s) \<Longrightarrow>
   calls s' u = calls s u + (if u = t then 1 else 0)"
  by (simp add: calls_def map_of_bump)

lemma calls_same: "tool_calls s' = tool_calls s \<Longrightarrow> calls s' u = calls s u"
  by (simp add: calls_def)

lemma track_usage_frame:
  assumes "track_usage t d w s = (r, s')" and "held s = []"
  shows "r = Inr ()" and "tool_calls s' = bump (JStr t) (tool_calls s)" and "held s' = []"
    and "INDEX s' = INDEX s" and "CONTENT_INDEX s' = CONTENT_INDEX s"
    and "heap s' = heap s" and "next_addr s' = next_addr s" and "start_time s' = start_time s"
  using assms
  by (auto simp add: track_usage_def with_lock_def Let_def split: option.splits if_splits)

lemma bindE_nd:
  "m \<noteq> Inl Deadlock \<Longrightarrow> (\<And>x. f x \<noteq> Inl Deadlock) \<Longrightarrow> bindE m f \<noteq> Inl Deadlock"
  by (cases m) (auto simp add: bindE_def)

lemma bindE_Deadlock_iff:
  "bindE m f = Inl Deadlock \<longleftrightarrow> m = Inl Deadlock \<or> (\<exists>x. m = Inr x \<and> f x = Inl Deadlock)"
  by (cases m) (auto simp add: bindE_def)

lemma py_in_nd [simp]: "py_in k v \<noteq> Inl Deadlock"
  by (cases v) simp_all

lemma py_getitem_nd [simp]: "py_getitem v k \<noteq> Inl Deadlock"
  by (cases v) (simp_all split: option.splits)

lemma py_get_nd [simp]: "py_get v k d \<noteq> Inl Deadlock"
  by (cases v) (simp_all split: option.splits)

lemma py_lower_nd [simp]: "py_lower v \<noteq> Inl Deadlock"
  by (cases v) simp_all

lemma py_iter_nd [simp]: "py_iter v \<noteq> Inl Deadlock"
  by (cases v) simp_all

lemma check_required_nd [simp]: "check_required meta n fs \<noteq> Inl Deadlock"
  by (induction fs) (simp_all add: bindE_nd)

lemma check_sub_fields_nd [simp]: "check_sub_fields n i sub fs \<noteq> Inl Deadlock"
  by (induction fs) (simp_all add: bindE_nd)

lemma check_sub_skills_nd [simp]: "check_sub_skills n i subs \<noteq> Inl Deadlock"
  by (induction subs arbitrary: i) (simp_all add: bindE_nd)

lemma validate_meta_nd [simp]: "validate_meta str meta n \<noteq> Inl Deadlock"
  by (auto simp add: validate_meta_def bindE_Deadlock_iff split: if_splits json.splits)

lemma load_dirs_nd [simp]: "load_dirs w ds index \<noteq> Inl Deadlock"
proof (induction ds arbitrary: index)
  case Nil
  then show ?case by simp
next
  case (Cons d ds)
  then show ?case by (simp add: bindE_nd split: meta_file.splits)
qed

lemma load_index_frame:
  assumes "load_index w s = (r, s')"
  shows "tool_calls s' = tool_calls s" and "skill_loads s' = skill_loads s"
    and "searches s' = searches s" and "heap s' = heap s" and "next_addr s' = next_addr s"
    and "start_time s' = start_time s" and "INDEX s' = INDEX s"
  using assms
  by (auto simp add: load_index_def with_lock_def bindS_def liftE_def
      split: if_splits sum.splits)

lemma load_index_held:
  assumes "load_index w s = (r, s')" and "CONTENT_INDEX_LOCK \<notin> set (held s)"
  shows "held s' = held s" and "r \<noteq> Inl Deadlock"
  using assms load_dirs_nd [of w "listing w" empty_index]
  by (auto simp add: load_index_def with_lock_def bindS_def liftE_def
      split: if_splits sum.splits)

lemma get_index_frame:
  assumes "get_index w s = (r, s')"
  shows "tool_calls s' = tool_calls s" and "skill_loads s' = skill_loads s"
    and "searches s' = searches s" and "heap s' = heap s" and "next_addr s' = next_addr s"
    and "start_time s' = start_time s"
  using assms
  by (auto simp add: get_index_def load_index_def with_lock_def bindS_def liftE_def
      split: if_splits sum.splits option.splits prod.splits abort.splits)

lemma get_index_held:
  assumes "get_index w s = (r, s')" and "held s = []"
  shows "held s' = []" and "r \<noteq> Inl Deadlock"
  using assms load_dirs_nd [of w "listing w" empty_index]
  by (auto simp add: get_index_def load_index_def with_lock_def bindS_def liftE_def
      split: if_splits sum.splits option.splits prod.splits abort.splits)

lemma bindS_alt:
  "bindS m f s = (case fst (m s) of Inl e \<Rightarrow> (Inl e, snd (m s)) | Inr x \<Rightarrow> f x (snd (m s)))"
  by (simp add: bindS_def split: prod.splits sum.splits)

lemma track_usage_snd:
  assumes "held s = []"
  shows "fst (track_usage t d w s) = Inr ()"
    and "tool_calls (snd (track_usage t d w s)) = bump (JStr t) (tool_calls s)"
    and "held (snd (track_usage t d w s)) = []"
    and "INDEX (snd (track_usage t d w s)) = INDEX s"
    and "CONTENT_INDEX (snd (track_usage t d w s)) = CONTENT_INDEX s"
    and "heap (snd (track_usage t d w s)) = heap s"
    and "next_addr (snd (track_usage t d w s)) = next_addr s"
    and "start_time (snd (track_usage t d w s)) = start_time s"
  using track_usage_frame [OF surjective_pairing assms, of t d w] by simp_all

lemma get_index_snd:
  shows "tool_calls (snd (get_index w s)) = tool_calls s"
    and "skill_loads (snd (get_index w s)) = skill_loads s"
    and "searches (snd (get_index w s)) = searches s"
    and "heap (snd (get_index w s)) = heap s"
    and "next_addr (snd (get_index w s)) = next_addr s"
    and "start_time (snd (get_index w s)) = start_time s"
  using get_index_frame [OF surjective_pairing, of w s] by simp_all

lemma get_index_snd_held:
  assumes "held s = []"
  shows "held (snd (get_index w s)) = []" and "fst (get_index w s) \<noteq> Inl Deadlock"
  using get_index_held [OF surjective_pairing assms, of w] by simp_all

lemma find_by_name_nd [simp]: "find_by_name xs n \<noteq> Inl Deadlock"
  by (induction xs) (auto split: sum.splits)

lemma names_of_nd [simp]: "names_of xs \<noteq> Inl Deadlock"
  by (induction xs) (auto split: sum.splits)

lemma sub_skill_names_nd [simp]: "sub_skill_names m \<noteq> Inl Deadlock"
  by (simp add: sub_skill_names_def bindE_Deadlock_iff)

lemma list_skills_tool_calls:
  assumes "held s = []"
  shows "tool_calls (snd (list_skills w s)) = bump (JStr ''list_skills'') (tool_calls s)"
  using assms
  by (simp add: list_skills_def bindS_alt liftE_def track_usage_snd get_index_snd
      split: sum.splits)

lemma get_skill_snd:
  assumes "held s = []"
  shows "tool_calls (snd (get_skill name w s))
           = (if is_safe_skill_name name then bump (JStr ''get_skill'') (tool_calls s)
              else tool_calls s)"
    and "held (snd (get_skill name w s)) = []"
    and "fst (get_skill name w s) \<noteq> Inl Deadlock"
  using assms
  by (auto simp add: get_skill_def bindS_alt liftE_def bindE_Deadlock_iff
        track_usage_snd get_index_snd get_index_snd_held
      split: sum.splits json.splits)

lemma get_sub_skill_snd:
  assumes "held s = []"
  shows "tool_calls (snd (get_sub_skill domain sub w s))
           = (if is_safe_skill_name domain then bump (JStr ''get_sub_skill'') (tool_calls s)
              else tool_calls s)"
    and "held (snd (get_sub_skill domain sub w s)) = []"
    and "fst (get_sub_skill domain sub w s) \<noteq> Inl Deadlock"
  using assms
  by (auto simp add: get_sub_skill_def bindS_alt liftE_def bindE_Deadlock_iff
        track_usage_snd get_index_snd get_index_snd_held
      split: sum.splits json.splits option.splits if_splits)

lemma batch_loop_calls:
  assumes "held s = []"
  shows "calls (snd (batch_loop requests w s)) ''get_skills_batch'' = calls s ''get_skills_batch''
         \<and> held (snd (batch_loop requests w s)) = []"
  using assms
proof (induction requests arbitrary: s)
  case Nil
  then show ?case by simp
next
  case (Cons req requests)
  show ?case
  proof (cases "py_get req ''domain'' JNull")
    case (Inl e)
    then show ?thesis using Cons.prems by simp
  next
    case domain: (Inr domain)
    show ?thesis
    proof (cases "py_get req ''sub_skill'' JNull")
      case (Inl e)
      then show ?thesis using domain Cons.prems by simp
    next
      case sub: (Inr sub)
      define step where "step = (if truthy sub then get_sub_skill domain sub w s
                                 else get_skill domain w s)"
      have h: "held (snd step) = []"
        using Cons.prems by (simp add: step_def get_skill_snd get_sub_skill_snd)
      have c: "calls (snd step) ''get_skills_batch'' = calls s ''get_skills_batch''"
        using Cons.prems
        by (simp add: step_def get_skill_snd get_sub_skill_snd calls_def map_of_bump)
      obtain r s1 where st: "step = (r, s1)" by force
      have ih: "calls (snd (batch_loop requests w s1)) ''get_skills_batch''
                  = calls s1 ''get_skills_batch''
                \<and> held (snd (batch_loop requests w s1)) = []"
        using Cons.IH [of s1] h st by simp
      show ?thesis
        using domain sub st h c ih
        by (auto simp add: step_def [symmetric] split: sum.splits prod.splits)
    qed
  qed
qed

lemma get_skills_batch_calls:
  assumes "held s = []"
  shows "calls (snd (get_skills_batch requests w s)) ''get_skills_batch''
         = calls s ''get_skills_batch'' + 1"
proof -
  let ?s1 = "snd (track_usage ''get_skills_batch'' None w s)"
  have "calls (snd (batch_loop requests w ?s1)) ''get_skills_batch''
        = calls ?s1 ''get_skills_batch''"
    using batch_loop_calls [of ?s1] assms by (simp add: track_usage_snd)
  also have "\<dots> = calls s ''get_skills_batch'' + 1"
    using calls_bump [of ?s1 "''get_skills_batch''" s "''get_skills_batch''"] assms
    by (simp add: track_usage_snd)
  finally show ?thesis using assms
    by (simp add: get_skills_batch_def bindS_alt track_usage_snd)
qed

lemma search_skills_tool_calls:
  assumes "held s = []"
  shows "tool_calls (snd (search_skills q limit w s))
         = (if valid_query q then bump (JStr ''search_skills'') (tool_calls s) else tool_calls s)"
  using assms
  by (auto simp add: search_skills_def valid_query_def bindS_alt liftE_def
        track_usage_snd get_index_snd split: sum.splits)

lemma with_lock_tool_calls:
  assumes "\<And>s. tool_calls (snd (body s)) = tool_calls s"
  shows "tool_calls (snd (with_lock l body s)) = tool_calls s"
proof (cases "l \<in> set (held s)")
  case True
  then show ?thesis by (simp add: with_lock_def)
next
  case False
  then show ?thesis
    using assms [of "s\<lparr>held := l # held s, lock_log := lock_log s @ [l # held s]\<rparr>"]
    by (auto simp add: with_lock_def split: prod.splits sum.splits abort.splits)
qed

lemma search_content_tool_calls:
  assumes "held s = []"
  shows "tool_calls (snd (search_content q limit w s))
         = (if valid_query q \<and> \<not> length (split (lower q)) > 100
            then bump (JStr ''search_content'') (tool_calls s) else tool_calls s)"
  using assms
  by (simp add: search_content_def valid_query_def bindS_alt liftE_def track_usage_snd
      with_lock_tool_calls get_index_snd split: sum.splits option.splits)

lemma load_index_snd:
  shows "tool_calls (snd (load_index w s)) = tool_calls s"
    and "INDEX (snd (load_index w s)) = INDEX s"
    and "CONTENT_INDEX_LOCK \<notin> set (held s) \<Longrightarrow> held (snd (load_index w s)) = held s"
    and "CONTENT_INDEX_LOCK \<notin> set (held s) \<Longrightarrow> fst (load_index w s) \<noteq> Inl Deadlock"
  using load_index_frame [OF surjective_pairing, of w s]
    load_index_held [OF surjective_pairing, where w = w and s = s] by simp_all

lemma reload_index_tool_calls:
  assumes "held s = []"
  shows "tool_calls (snd (reload_index w s))
         = (case fst (load_index w s) of
              Inl e \<Rightarrow> tool_calls s
            | Inr index \<Rightarrow> bump (JStr ''reload_index'') (tool_calls s))"
proof -
  let ?s1 = "snd (load_index w s)"
  have h1: "held ?s1 = []" using assms by (simp add: load_index_snd)
  show ?thesis
  proof (cases "fst (load_index w s)")
    case (Inl e)
    then show ?thesis by (simp add: reload_index_def bindS_alt load_index_snd)
  next
    case (Inr index)
    let ?s2 = "?s1\<lparr>INDEX := Some index, lock_log := lock_log ?s1 @ [[INDEX_LOCK]]\<rparr>"
    have w: "with_lock INDEX_LOCK (\<lambda>s. (Inr (), s\<lparr>INDEX := Some index\<rparr>)) ?s1 = (Inr (), ?s2)"
      using h1 by (simp add: with_lock_def)
    have h2: "held ?s2 = []" using h1 by simp
    let ?s3 = "snd (track_usage ''reload_index'' None w ?s2)"
    have t: "fst (track_usage ''reload_index'' None w ?s2) = Inr ()"
      and c: "tool_calls ?s3 = bump (JStr ''reload_index'') (tool_calls s)"
      and h3: "held ?s3 = []"
      using track_usage_snd [OF h2] by (simp_all add: load_index_snd)
    show ?thesis
      using Inr w t c h3
      by (auto simp add: reload_index_def bindS_alt with_lock_def split: option.splits)
  qed
qed

lemma alloc_tool_calls: "tool_calls (snd (alloc obj s)) = tool_calls s"
  by (simp add: alloc_def)

lemma get_stats_tool_calls: "tool_calls (snd (get_stats w s)) = tool_calls s"
proof -
  have a: "tool_calls (snd (case alloc (Counts (tool_calls s)) s of
                      (tc, s1) \<Rightarrow>
                        (case alloc (Counts (skill_loads s1)) s1 of
                           (sl, s2) \<Rightarrow>
                             (case alloc (Entries (last10 (searches s2))) s2 of
                                (rs, s3) \<Rightarrow>
                                  (Inr \<lparr>uptime_since = start_time s3, st_tool_calls = tc,
                                        st_skill_loads = sl, recent_searches = rs,
                                        total_skills = 0, st_content_files_indexed = 0\<rparr>,
                                   s3))))) = tool_calls s" for s
    by (simp add: alloc_def)
  have b: "tool_calls (snd ((\<lambda>s. (Inr (content_count s), s)) s)) = tool_calls s" for s
    by simp
  show ?thesis
    unfolding get_stats_def bindS_alt liftE_def
    by (simp add: with_lock_tool_calls [OF a] with_lock_tool_calls [OF b] get_index_snd
        split: sum.splits)
qed

lemma validate_skills_state: "snd (validate_skills w s) = s"
  by (simp add: validate_skills_def split: sum.splits prod.splits)

text \<open>
  Claim C5, as the code has it. Called with no lock held, \<^verbatim>\<open>_list_skills\<close> and
  \<^verbatim>\<open>_get_skills_batch\<close> add one to their counter on every call; \<^verbatim>\<open>_get_skill\<close> and
  \<^verbatim>\<open>_get_sub_skill\<close> do so exactly when the name passes \<^verbatim>\<open>is_safe_skill_name\<close>;
  \<^verbatim>\<open>_search_skills\<close> and \<^verbatim>\<open>_search_content\<close> exactly when the query passes the checks made
  before \<^verbatim>\<open>track_usage\<close> (not empty, not blank, at most 1000 characters and, for the
  content search, at most 100 words); \<^verbatim>\<open>_reload_index\<close> exactly when \<^verbatim>\<open>load_index\<close>
  returns; \<^verbatim>\<open>_get_stats\<close> leaves every counter as it is and \<^verbatim>\<open>_validate_skills\<close> leaves
  the whole state as it is.
\<close>

theorem usage_counter_effects:
  assumes "held s = []"
  shows "calls (snd (list_skills w s)) ''list_skills'' = calls s ''list_skills'' + 1 \<and>
         calls (snd (get_skills_batch requests w s)) ''get_skills_batch''
           = calls s ''get_skills_batch'' + 1 \<and>
         calls (snd (get_skill name w s)) ''get_skill''
           = calls s ''get_skill'' + (if is_safe_skill_name name then 1 else 0) \<and>
         calls (snd (get_sub_skill name sub w s)) ''get_sub_skill''
           = calls s ''get_sub_skill'' + (if is_safe_skill_name name then 1 else 0) \<and>
         calls (snd (search_skills q limit w s)) ''search_skills''
           = calls s ''search_skills'' + (if valid_query q then 1 else 0) \<and>
         calls (snd (search_content q limit w s)) ''search_content''
           = calls s ''search_content''
             + (if valid_query q \<and> length (split (lower q)) \<le> 100 then 1 else 0) \<and>
         calls (snd (reload_index w s)) ''reload_index''
           = calls s ''reload_index''
             + (case fst (load_index w s) of Inl e \<Rightarrow> 0 | Inr index \<Rightarrow> 1) \<and>
         tool_calls (snd (get_stats w s)) = tool_calls s \<and>
         snd (validate_skills w s) = s"
proof -
  have 1: "calls (snd (list_skills w s)) ''list_skills'' = calls s ''list_skills'' + 1"
    using calls_bump [OF list_skills_tool_calls [OF assms]] by simp
  have 2: "calls (snd (get_skills_batch requests w s)) ''get_skills_batch''
           = calls s ''get_skills_batch'' + 1"
    using get_skills_batch_calls [OF assms] .
  have 3: "calls (snd (get_skill name w s)) ''get_skill''
           = calls s ''get_skill'' + (if is_safe_skill_name name then 1 else 0)"
    using get_skill_snd(1) [OF assms, of name w] by (simp add: calls_def map_of_bump)
  have 4: "calls (snd (get_sub_skill name sub w s)) ''get_sub_skill''
           = calls s ''get_sub_skill'' + (if is_safe_skill_name name then 1 else 0)"
    using get_sub_skill_snd(1) [OF assms, of name sub w] by (simp add: calls_def map_of_bump)
  have 5: "calls (snd (search_skills q limit w s)) ''search_skills''
           = calls s ''search_skills'' + (if valid_query q then 1 else 0)"
    using search_skills_tool_calls [OF assms, of q limit w] by (simp add: calls_def map_of_bump)
  have 6: "calls (snd (search_content q limit w s)) ''search_content''
           = calls s ''search_content''
             + (if valid_query q \<and> length (split (lower q)) \<le> 100 then 1 else 0)"
    using search_content_tool_calls [OF assms, of q limit w]
    by (simp add: calls_def map_of_bump not_less)
  have 7: "calls (snd (reload_index w s)) ''reload_index''
           = calls s ''reload_index''
             + (case fst (load_index w s) of Inl e \<Rightarrow> 0 | Inr index \<Rightarrow> 1)"
    using reload_index_tool_calls [OF assms, of w]
    by (simp add: calls_def map_of_bump split: sum.splits)
  show ?thesis
    using 1 2 3 4 5 6 7 get_stats_tool_calls [of w s] validate_skills_state [of w s]
    by (simp only: simp_thms)
qed

theorem usage_counter_effects_witness:
  "held (init_server ''2024-01-01T00:00:00'') = [] \<and>
   calls (snd (list_skills forms_world (init_server ''2024-01-01T00:00:00''))) ''list_skills'' = 1 \<and>
   calls (snd (get_skill (JStr ''forms'') forms_world (init_server ''2024-01-01T00:00:00'')))
     ''get_skill'' = 1 \<and>
   calls (snd (get_skill (JStr ''../forms'') broken_world (init_server ''2024-01-01T00:00:00'')))
     ''get_skill'' = 0 \<and>
   calls (snd (search_skills ''html'' 5 forms_world (init_server ''2024-01-01T00:00:00'')))
     ''search_skills'' = 1 \<and>
   calls (snd (search_skills '' '' 5 broken_world (init_server ''2024-01-01T00:00:00'')))
     ''search_skills'' = 0 \<and>
   calls (snd (reload_index forms_world (init_server ''2024-01-01T00:00:00''))) ''reload_index'' = 1 \<and>
   calls (snd (reload_index broken_world (init_server ''2024-01-01T00:00:00''))) ''reload_index'' = 0"
proof -
  have h: "held (init_server ''2024-01-01T00:00:00'') = []" by (simp add: init_server_def)
  have c: "calls (init_server ''2024-01-01T00:00:00'') t = 0" for t
    by (simp add: init_server_def calls_def)
  have s1: "is_safe_skill_name (JStr ''forms'')" by code_simp
  have s2: "\<not> is_safe_skill_name (JStr ''../forms'')" by code_simp
  have v1: "valid_query ''html''" by code_simp
  have v2: "\<not> valid_query '' ''" by code_simp
  have l1: "\<not> isl (fst (load_index forms_world (init_server ''2024-01-01T00:00:00'')))"
    by code_simp
  have l2: "fst (load_index broken_world (init_server ''2024-01-01T00:00:00'')) = Inl TypeError"
    by code_simp
  note A = usage_counter_effects [OF h, of forms_world "[]" "JStr ''forms''" JNull "''html''" 5]
  note B = usage_counter_effects [OF h, of broken_world "[]" "JStr ''../forms''" JNull "'' ''" 5]
  have a1: "calls (snd (list_skills forms_world (init_server ''2024-01-01T00:00:00'')))
              ''list_skills'' = 1"
    using A by (simp add: c)
  have a2: "calls (snd (get_skill (JStr ''forms'') forms_world (init_server ''2024-01-01T00:00:00'')))
              ''get_skill'' = 1"
    using A by (simp add: c s1 del: is_safe_skill_name.simps)
  have a3: "calls (snd (search_skills ''html'' 5 forms_world (init_server ''2024-01-01T00:00:00'')))
              ''search_skills'' = 1"
    using A by (simp add: c v1)
  have a4: "calls (snd (reload_index forms_world (init_server ''2024-01-01T00:00:00'')))
              ''reload_index'' = 1"
    using A l1 by (simp add: c split: sum.splits)
  have b2: "calls (snd (get_skill (JStr ''../forms'') broken_world
                         (init_server ''2024-01-01T00:00:00''))) ''get_skill'' = 0"
    using B by (simp add: c s2 del: is_safe_skill_name.simps)
  have b3: "calls (snd (search_skills '' '' 5 broken_world (init_server ''2024-01-01T00:00:00'')))
              ''search_skills'' = 0"
    using B by (simp add: c v2)
  have b4: "calls (snd (reload_index broken_world (init_server ''2024-01-01T00:00:00'')))
              ''reload_index'' = 0"
    using B by (simp add: c l2)
  show ?thesis using h a1 a2 a3 a4 b2 b3 b4 by (simp only: simp_thms)
qed

text \<open>
  Claim C5 as stated fails: from the initial state, a search with an empty or blank query,
  a \<^verbatim>\<open>_get_skill\<close> with an unsafe name, \<^verbatim>\<open>_get_stats\<close> and \<^verbatim>\<open>_validate_skills\<close> each leave
  \<^verbatim>\<open>tool_calls\<close> empty.
\<close>

theorem untracked_calls_counterexample:
  "tool_calls (snd (search_skills [] 5 forms_world (init_server ''2024-01-01T00:00:00''))) = [] \<and>
   tool_calls (snd (search_content '' '' 10 forms_world (init_server ''2024-01-01T00:00:00''))) = [] \<and>
   tool_calls (snd (get_skill (JStr ''../forms'') forms_world (init_server ''2024-01-01T00:00:00'')))
     = [] \<and>
   tool_calls (snd (get_stats forms_world (init_server ''2024-01-01T00:00:00''))) = [] \<and>
   tool_calls (snd (validate_skills forms_world (init_server ''2024-01-01T00:00:00''))) = []"
  by code_simp

subsection \<open>The statistics snapshot\<close>

lemma track_usage_heap:
  "heap (snd (track_usage t d w s)) = heap s"
  by (simp add: track_usage_def with_lock_def Let_def split: option.splits)

lemma get_index_CONTENT_INDEX_cong:
  "INDEX s = INDEX s' \<Longrightarrow> held s = held s' \<Longrightarrow> CONTENT_INDEX s = CONTENT_INDEX s' \<Longrightarrow>
   CONTENT_INDEX (snd (get_index w s)) = CONTENT_INDEX (snd (get_index w s'))"
  by (auto simp add: get_index_def load_index_def with_lock_def bindS_def liftE_def
      split: if_splits sum.splits option.splits prod.splits abort.splits)

lemma get_stats_snapshot:
  assumes "held s = []"
  shows "fst (get_stats w s) =
           (case fst (get_index w s) of
              Inl e \<Rightarrow> Inl e
            | Inr index \<Rightarrow>
                Inr \<lparr>uptime_since = start_time s, st_tool_calls = Addr (next_addr s),
                     st_skill_loads = Addr (Suc (next_addr s)),
                     recent_searches = Addr (Suc (Suc (next_addr s))),
                     total_skills = length (skills index),
                     st_content_files_indexed = content_count (snd (get_index w s))\<rparr>)"
    and "heap (snd (get_stats w s)) =
           (heap s)(next_addr s \<mapsto> Counts (tool_calls s),
                    Suc (next_addr s) \<mapsto> Counts (skill_loads s),
                    Suc (Suc (next_addr s)) \<mapsto> Entries (last10 (searches s)))"
proof -
  let ?s3 = "s\<lparr>heap := (heap s)(next_addr s \<mapsto> Counts (tool_calls s),
                    Suc (next_addr s) \<mapsto> Counts (skill_loads s),
                    Suc (Suc (next_addr s)) \<mapsto> Entries (last10 (searches s))),
                next_addr := Suc (Suc (Suc (next_addr s))),
                lock_log := lock_log s @ [[STATS_LOCK]]\<rparr>"
  let ?copy = "\<lparr>uptime_since = start_time s, st_tool_calls = Addr (next_addr s),
                     st_skill_loads = Addr (Suc (next_addr s)),
                     recent_searches = Addr (Suc (Suc (next_addr s))),
                     total_skills = 0, st_content_files_indexed = 0\<rparr>"
  have a: "with_lock STATS_LOCK
              (\<lambda>s. case alloc (Counts (tool_calls s)) s of
                      (tc, s1) \<Rightarrow>
                        (case alloc (Counts (skill_loads s1)) s1 of
                           (sl, s2) \<Rightarrow>
                             (case alloc (Entries (last10 (searches s2))) s2 of
                                (rs, s3) \<Rightarrow>
                                  (Inr \<lparr>uptime_since = start_time s3, st_tool_calls = tc,
                                        st_skill_loads = sl, recent_searches = rs,
                                        total_skills = 0, st_content_files_indexed = 0\<rparr>,
                                   s3)))) s = (Inr ?copy, ?s3)"
    using assms by (simp add: with_lock_def alloc_def)
  have h3: "held ?s3 = []" using assms by simp
  have g: "fst (get_index w ?s3) = fst (get_index w s)"
    by (rule get_index_fst_cong) (simp_all add: assms)
  have c: "content_count (snd (get_index w ?s3)) = content_count (snd (get_index w s))"
    using get_index_CONTENT_INDEX_cong [of ?s3 s w] assms by (simp add: content_count_def)
  have h4: "held (snd (get_index w ?s3)) = []" using get_index_snd_held [OF h3] by simp
  have hp: "heap (snd (get_index w ?s3)) = heap ?s3" by (simp add: get_index_snd)
  have b: "with_lock CONTENT_INDEX_LOCK (\<lambda>s. (Inr (content_count s), s)) (snd (get_index w ?s3))
           = (Inr (content_count (snd (get_index w ?s3))),
              (snd (get_index w ?s3))\<lparr>lock_log := lock_log (snd (get_index w ?s3))
                                                    @ [[CONTENT_INDEX_LOCK]]\<rparr>)"
    using h4 by (simp add: with_lock_def content_count_def)
  show "fst (get_stats w s) =
           (case fst (get_index w s) of
              Inl e \<Rightarrow> Inl e
            | Inr index \<Rightarrow>
                Inr \<lparr>uptime_since = start_time s, st_tool_calls = Addr (next_addr s),
                     st_skill_loads = Addr (Suc (next_addr s)),
                     recent_searches = Addr (Suc (Suc (next_addr s))),
                     total_skills = length (skills index),
                     st_content_files_indexed = content_count (snd (get_index w s))\<rparr>)"
    using g c
    by (simp add: get_stats_def bindS_alt liftE_def a b split: sum.splits)
  show "heap (snd (get_stats w s)) =
           (heap s)(next_addr s \<mapsto> Counts (tool_calls s),
                    Suc (next_addr s) \<mapsto> Counts (skill_loads s),
                    Suc (Suc (next_addr s)) \<mapsto> Entries (last10 (searches s)))"
    using hp
    by (simp add: get_stats_def bindS_alt liftE_def a b split: sum.splits)
qed

text \<open>
  Claim C6, as the code has it. A call of \<^verbatim>\<open>_get_stats\<close> that returns hands out three new
  objects, at addresses no object had before: a copy of the per-tool counters, a copy of the
  per-domain counters, and a list of the last ten entries of the buffer of searches (all of
  them when there are at most ten), together with the start time. The objects are not the
  collections of \<^verbatim>\<open>_USAGE_STATS\<close>: a later \<^verbatim>\<open>track_usage\<close> leaves them as they were. The
  entries themselves are values here; in Python the new list shares the entry dicts with
  the deque, and nothing in the module writes to an entry.
\<close>

theorem get_stats_returns_copies:
  assumes "held s = []" and "fst (get_stats w s) = Inr st"
  shows "st_tool_calls st = Addr (next_addr s) \<and>
         st_skill_loads st = Addr (next_addr s + 1) \<and>
         recent_searches st = Addr (next_addr s + 2) \<and>
         uptime_since st = start_time s \<and>
         deref (snd (get_stats w s)) (st_tool_calls st) = Some (Counts (tool_calls s)) \<and>
         deref (snd (get_stats w s)) (st_skill_loads st) = Some (Counts (skill_loads s)) \<and>
         deref (snd (get_stats w s)) (recent_searches st)
           = Some (Entries (drop (length (searches s) - 10) (searches s))) \<and>
         deref (snd (track_usage t d w2 (snd (get_stats w s)))) (st_tool_calls st)
           = Some (Counts (tool_calls s)) \<and>
         deref (snd (track_usage t d w2 (snd (get_stats w s)))) (st_skill_loads st)
           = Some (Counts (skill_loads s)) \<and>
         deref (snd (track_usage t d w2 (snd (get_stats w s)))) (recent_searches st)
           = Some (Entries (drop (length (searches s) - 10) (searches s)))"
proof -
  have "\<exists>n c. st = \<lparr>uptime_since = start_time s, st_tool_calls = Addr (next_addr s),
                     st_skill_loads = Addr (Suc (next_addr s)),
                     recent_searches = Addr (Suc (Suc (next_addr s))),
                     total_skills = n, st_content_files_indexed = c\<rparr>"
  proof (cases "fst (get_index w s)")
    case (Inl e)
    then show ?thesis using assms(2) get_stats_snapshot(1) [OF assms(1), of w] by simp
  next
    case (Inr index)
    then show ?thesis using assms(2) get_stats_snapshot(1) [OF assms(1), of w] by auto
  qed
  then obtain n c where st: "st = \<lparr>uptime_since = start_time s, st_tool_calls = Addr (next_addr s),
                     st_skill_loads = Addr (Suc (next_addr s)),
                     recent_searches = Addr (Suc (Suc (next_addr s))),
                     total_skills = n, st_content_files_indexed = c\<rparr>"
    by blast
  show ?thesis
    using get_stats_snapshot(2) [OF assms(1), of w]
    by (simp add: st track_usage_heap last10_def)
qed

theorem get_stats_returns_copies_witness:
  "held eleven_searches = [] \<and>
   fst (get_stats bare_world eleven_searches)
     = Inr \<lparr>uptime_since = ''2024-01-01T00:00:00'', st_tool_calls = Addr 0,
            st_skill_loads = Addr 1, recent_searches = Addr 2, total_skills = 0,
            st_content_files_indexed = 0\<rparr> \<and>
   deref (snd (get_stats bare_world eleven_searches)) (Addr 0)
     = Some (Counts [(JStr ''search_skills'', 11)]) \<and>
   deref (snd (track_usage ''search_skills'' (Some [(''query'', JStr ''z'')]) bare_world
                 (snd (get_stats bare_world eleven_searches)))) (Addr 0)
     = Some (Counts [(JStr ''search_skills'', 11)]) \<and>
   deref (snd (track_usage ''search_skills'' (Some [(''query'', JStr ''z'')]) bare_world
                 (snd (get_stats bare_world eleven_searches)))) (Global G_tool_calls)
     = Some (Counts [(JStr ''search_skills'', 12)])"
proof -
  have h: "held eleven_searches = []"
    by (simp add: eleven_searches_def init_server_def)
  have f: "fst (get_stats bare_world eleven_searches)
     = Inr \<lparr>uptime_since = ''2024-01-01T00:00:00'', st_tool_calls = Addr 0,
            st_skill_loads = Addr 1, recent_searches = Addr 2, total_skills = 0,
            st_content_files_indexed = 0\<rparr>"
    by code_simp
  have c: "tool_calls eleven_searches = [(JStr ''search_skills'', 11)]" by code_simp
  have g: "deref (snd (track_usage ''search_skills'' (Some [(''query'', JStr ''z'')]) bare_world
                 (snd (get_stats bare_world eleven_searches)))) (Global G_tool_calls)
     = Some (Counts [(JStr ''search_skills'', 12)])"
    by code_simp
  show ?thesis
    using h f c g
      get_stats_returns_copies [OF h f, of "''search_skills''" "Some [(''query'', JStr ''z'')]"
        bare_world]
    by simp
qed

text \<open>
  Claim C6 as stated fails: with eleven searches in the buffer, the list handed out under
  \<^verbatim>\<open>recent_searches\<close> holds ten entries, not the whole buffer.
\<close>

theorem recent_searches_counterexample:
  "length (searches eleven_searches) = 11 \<and>
   fst (get_stats bare_world eleven_searches)
     = Inr \<lparr>uptime_since = ''2024-01-01T00:00:00'', st_tool_calls = Addr 0,
            st_skill_loads = Addr 1, recent_searches = Addr 2, total_skills = 0,
            st_content_files_indexed = 0\<rparr> \<and>
   deref (snd (get_stats bare_world eleven_searches)) (Addr 2)
     = Some (Entries (replicate 10 (JStr ''q'', ''2024-01-01T00:00:00'')))"
  by code_simp

subsection \<open>Batch loading\<close>
























end
